theory Spec2Isabelle
  imports Complex_Main
begin

section \<open>Python values, errors and built-ins\<close>

text \<open>
  Every \<^verbatim>\<open>raise\<close> of the source, and every exception of a Python built-in that
  the source can trigger, is a value of \<open>error\<close>; a function that can raise returns
  \<open>error + 'a\<close> with \<open>Inl\<close> for the exception.  \<open>ValueError\<close> carries its message.
\<close>

datatype error =
    ValueError string
  | TypeError
  | IndexError
  | KeyError
  | AttributeError
  | NameError
  | ZeroDivisionError
  | OverflowError

text \<open>
  The items that flow through \<^verbatim>\<open>from_map\<close>: an item of the caller (\<open>Atom\<close>) or a
  tuple built by \<^verbatim>\<open>zip(*iters)\<close>.
\<close>

datatype 'a pyval = Atom 'a | Tup "'a pyval list"

text \<open>\<^verbatim>\<open>a or b\<close> on an optional string: \<^verbatim>\<open>None\<close> and the empty string are falsy.\<close>

definition str_or :: "string option \<Rightarrow> string \<Rightarrow> string" where
  "str_or a b = (case a of None \<Rightarrow> b | Some s \<Rightarrow> if s = [] then b else s)"

text \<open>
  A binary64 float is the real number it stands for.  \<open>double_round\<close> rounds a real to
  the nearest float, a tie to the one with an even significand: floats with exponent \<open>e\<close>
  are the multiples of \<open>2 ^ (e - 52)\<close>, and below \<open>2 ^ (- 1022)\<close> (subnormal floats) the
  multiples of \<open>2 ^ (- 1074)\<close>.
\<close>

definition round_half_even :: "real \<Rightarrow> int" where
  "round_half_even y =
     (let f = \<lfloor>y\<rfloor>; d = y - of_int f
      in if d < 1 / 2 then f else if 1 / 2 < d then f + 1 else if even f then f else f + 1)"

definition double_round :: "real \<Rightarrow> real" where
  "double_round x =
     (if x = 0 then 0
      else let e = max \<lfloor>log 2 \<bar>x\<bar>\<rfloor> (- 1022);
               u = 2 powr of_int (e - 52)
           in sgn x * (u * of_int (round_half_even (\<bar>x\<bar> / u))))"

text \<open>
  \<^verbatim>\<open>a / b\<close> on integers: the exact quotient, correctly rounded to a float.  A zero
  divisor raises, and so does a quotient that rounds beyond the largest float.
\<close>

definition py_true_div :: "int \<Rightarrow> int \<Rightarrow> error + real" where
  "py_true_div a b =
     (if b = 0 then Inl ZeroDivisionError
      else let r = double_round (of_int a / of_int b)
           in if 2 ^ 1024 \<le> \<bar>r\<bar> then Inl OverflowError else Inr r)"

text \<open>
  \<^verbatim>\<open>range(start, stop, step)\<close> as a list.  A zero step raises; the number of
  elements is the one CPython computes.
\<close>

definition py_range :: "int \<Rightarrow> int \<Rightarrow> int \<Rightarrow> error + int list" where
  "py_range start stop step =
     (if step = 0 then Inl (ValueError ''range() arg 3 must not be zero'')
      else if 0 < step
        then Inr (map (\<lambda>k. start + int k * step) [0 ..< nat ((stop - start + step - 1) div step)])
        else Inr (map (\<lambda>k. start + int k * step) [0 ..< nat ((start - stop - step - 1) div (- step))]))"

text \<open>
  \<^verbatim>\<open>xs[start:stop]\<close>: a negative bound counts from the end, both bounds are clipped
  to the list, and an empty range gives the empty list.
\<close>

definition py_slice :: "'r list \<Rightarrow> int \<Rightarrow> int \<Rightarrow> 'r list" where
  "py_slice xs start stop =
     (let n = int (length xs);
          s = (if start < 0 then max 0 (start + n) else min start n);
          e = (if stop < 0 then max 0 (stop + n) else min stop n)
      in take (nat (e - s)) (drop (nat s) xs))"

text \<open>\<^verbatim>\<open>zip(*iters)\<close>: one tuple per position, up to the shortest input.\<close>

fun min_len :: "'a list list \<Rightarrow> nat" where
  "min_len [] = 0"
| "min_len [x] = length x"
| "min_len (x # xs) = min (length x) (min_len xs)"

definition zip_star :: "'a pyval list list \<Rightarrow> 'a pyval list" where
  "zip_star iters = map (\<lambda>i. Tup (map (\<lambda>it. it ! i) iters)) [0 ..< min_len iters]"

section \<open>Collections and the graph layer of \<^verbatim>\<open>from_map\<close>\<close>

text \<open>
  A Python callable is called with positional arguments and keyword arguments and
  returns a partition or raises.  The \<^verbatim>\<open>func\<close> argument of \<^verbatim>\<open>from_map\<close> may also
  be an object that is not callable; a callable carries the name \<^verbatim>\<open>funcname\<close> reports.
\<close>

type_synonym ('a, 'p) callable = "'a pyval list \<Rightarrow> (string \<times> 'a pyval) list \<Rightarrow> error + 'p"

datatype ('a, 'p) py_func = NotCallable | Func string "('a, 'p) callable"

text \<open>
  An argument in \<^verbatim>\<open>*iterables\<close>: not an \<^verbatim>\<open>Iterable\<close> at all, an iterable with
  \<^verbatim>\<open>len\<close>, or one without (a generator), which the source turns into a list first.
  Iterables are finite here.
\<close>

datatype 'a iterable = NotIterable | Sized "'a pyval list" | Unsized "'a pyval list"

fun items :: "'a iterable \<Rightarrow> 'a pyval list" where
  "items NotIterable = []"
| "items (Sized xs) = xs"
| "items (Unsized xs) = xs"

record ('a, 'p) PackedArgCallable =
  pac_func :: "('a, 'p) callable"
  pac_args :: "'a pyval list option"
  pac_kwargs :: "(string \<times> 'a pyval) list option"
  pac_packed :: bool

definition PackedArgCallable_call :: "('a, 'p) PackedArgCallable \<Rightarrow> 'a pyval \<Rightarrow> error + 'p" where
  "PackedArgCallable_call self packed_arg =
     (let pa = (if \<not> pac_packed self then Tup [packed_arg] else packed_arg)
      in case pa of
           Atom _ \<Rightarrow> Inl TypeError
         | Tup xs \<Rightarrow>
             pac_func self
               (xs @ (case pac_args self of None \<Rightarrow> [] | Some a \<Rightarrow> a))
               (case pac_kwargs self of None \<Rightarrow> [] | Some k \<Rightarrow> k))"

text \<open>The \<^verbatim>\<open>io_func\<close> of a layer: the caller's function itself, or wrapped.\<close>

datatype ('a, 'p) io_func = Direct "('a, 'p) callable" | Wrapped "('a, 'p) PackedArgCallable"

fun call_io_func :: "('a, 'p) io_func \<Rightarrow> 'a pyval \<Rightarrow> error + 'p" where
  "call_io_func (Direct f) x = f [x] []"
| "call_io_func (Wrapped pac) x = PackedArgCallable_call pac x"

text \<open>
  \<^verbatim>\<open>AwkwardIOLayer\<close> (module \<^verbatim>\<open>dask_awkward.layers\<close>) holds what \<^verbatim>\<open>from_map\<close>
  passes to it; partition \<open>i\<close> of the layer is \<^verbatim>\<open>io_func(inputs[i])\<close>.
\<close>

record ('a, 'p, 'm) AwkwardIOLayer =
  layer_name :: string
  layer_columns :: "string list option"
  layer_inputs :: "'a pyval list"
  layer_io_func :: "('a, 'p) io_func"
  layer_meta :: "'m option"

definition materialize :: "('a, 'p, 'm) AwkwardIOLayer \<Rightarrow> (error + 'p) list" where
  "materialize l = map (call_io_func (layer_io_func l)) (layer_inputs l)"

text \<open>
  A collection: its graph, its name, its representative value and its divisions
  (\<open>None\<close> entries are unknown boundaries).
\<close>

record ('g, 'm) Array =
  dask :: 'g
  name :: string
  meta :: "'m option"
  divisions :: "int option list"

datatype partitioning = Divisions "int option list" | NPartitions nat

text \<open>
  Modelled from the spec: \<^verbatim>\<open>new_array_object\<close> of \<^verbatim>\<open>dask_awkward.lib.core\<close> is not
  among the sources.  The spec's data model gives a collection either the divisions it is
  built with, or, when only the partition count \<open>N\<close> is known, \<open>N + 1\<close> unknown entries.
\<close>

definition new_array_object :: "'g \<Rightarrow> string \<Rightarrow> 'm option \<Rightarrow> partitioning \<Rightarrow> ('g, 'm) Array" where
  "new_array_object hlg nm mt p =
     \<lparr>dask = hlg, name = nm, meta = mt,
      divisions = (case p of Divisions d \<Rightarrow> d | NPartitions n \<Rightarrow> replicate (n + 1) None)\<rparr>"

text \<open>
  The keyword arguments of \<^verbatim>\<open>from_map\<close>.  \<open>produces_tasks\<close> is the value popped from
  \<^verbatim>\<open>**kwargs\<close> and \<open>kwargs\<close> is what remains; \<open>tokenize_value\<close> is the digest
  \<^verbatim>\<open>tokenize(func, iters, meta, **kwargs)\<close>, used when no token is given.
\<close>

record ('a, 'm) from_map_kw =
  kw_args :: "'a pyval list option"
  kw_label :: "string option"
  kw_token :: "string option"
  kw_divisions :: "int option list option"
  kw_meta :: "'m option"
  kw_produces_tasks :: bool
  kw_kwargs :: "(string \<times> 'a pyval) list"
  kw_tokenize_value :: string

text \<open>The part of \<^verbatim>\<open>from_map\<close> after the inputs are fixed (source lines 426 to 454).\<close>

definition from_map_build ::
  "string \<Rightarrow> ('a, 'p) callable \<Rightarrow> 'a pyval list \<Rightarrow> bool \<Rightarrow> ('a, 'm) from_map_kw
     \<Rightarrow> (('a, 'p, 'm) AwkwardIOLayer, 'm) Array" where
  "from_map_build fname f inputs packed kw =
     (let label = str_or (kw_label kw) fname;
          token = str_or (kw_token kw) (kw_tokenize_value kw);
          nm = label @ ''-'' @ token;
          io = (if packed \<or> (case kw_args kw of None \<Rightarrow> False | Some a \<Rightarrow> a \<noteq> []) \<or> kw_kwargs kw \<noteq> []
                then Wrapped \<lparr>pac_func = f, pac_args = kw_args kw,
                               pac_kwargs = Some (kw_kwargs kw), pac_packed = packed\<rparr>
                else Direct f);
          dsk = \<lparr>layer_name = nm, layer_columns = None, layer_inputs = inputs,
                 layer_io_func = io, layer_meta = kw_meta kw\<rparr>
      in new_array_object dsk nm (kw_meta kw)
           (case kw_divisions kw of Some d \<Rightarrow> Divisions d | None \<Rightarrow> NPartitions (length inputs)))"

definition from_map ::
  "('a, 'p) py_func \<Rightarrow> 'a iterable list \<Rightarrow> ('a, 'm) from_map_kw
     \<Rightarrow> error + (('a, 'p, 'm) AwkwardIOLayer, 'm) Array" where
  "from_map func iterables kw =
     (case func of
        NotCallable \<Rightarrow> Inl (ValueError ''`func` argument must be `callable`'')
      | Func fname f \<Rightarrow>
          if NotIterable \<in> set iterables
          then Inl (ValueError ''All elements of `iterables` must be Iterable'')
          else
            let iters = map items iterables;
                lengths = set (map length iters)
            in if card lengths = 0
               then Inl (ValueError ''`from_map` requires at least one Iterable input'')
               else if 1 < card lengths
               then Inl (ValueError ''All `iterables` must have the same length'')
               else if lengths = {0}
               then Inl (ValueError ''All `iterables` must have a non-zero length'')
               else if kw_produces_tasks kw \<or> length iters = 1
               then if 1 < length iters
                    then Inl (ValueError ''Multiple iterables not supported when produces_tasks=True'')
                    else Inr (from_map_build fname f (iters ! 0) False kw)
               else Inr (from_map_build fname f (zip_star iters) True kw))"

section \<open>\<^verbatim>\<open>from_awkward\<close>\<close>

text \<open>\<^verbatim>\<open>_FromAwkwardFn(arr)(start, stop)\<close> is \<^verbatim>\<open>arr[start:stop]\<close>.\<close>

definition FromAwkwardFn :: "'r list \<Rightarrow> (int, 'r list) callable" where
  "FromAwkwardFn arr pos kws =
     (case (pos, kws) of
        ([Atom start, Atom stop], []) \<Rightarrow> Inr (py_slice arr start stop)
      | _ \<Rightarrow> Inl TypeError)"

text \<open>
  The chunk size \<^verbatim>\<open>int(math.ceil(nrows / npartitions))\<close>: the float quotient, rounded up
  to an integer.
\<close>

definition chunksize_of :: "int \<Rightarrow> int \<Rightarrow> error + int" where
  "chunksize_of nrows npartitions =
     (case py_true_div nrows npartitions of Inl e \<Rightarrow> Inl e | Inr r \<Rightarrow> Inr \<lceil>r\<rceil>)"

text \<open>
  The array is the list of its rows.  \<open>typetracer_array\<close> (of \<^verbatim>\<open>dask_awkward.lib.core\<close>)
  and the digest \<^verbatim>\<open>tokenize(source, npartitions)\<close> are parameters.  \<^verbatim>\<open>from_map\<close> takes
  its own digest only when the token it is given is empty, which a digest is not; the
  same digest stands for it.
\<close>

definition from_awkward ::
  "'r list \<Rightarrow> int \<Rightarrow> string option \<Rightarrow> ('r list \<Rightarrow> 'm) \<Rightarrow> string
     \<Rightarrow> error + ((int, 'r list, 'm) AwkwardIOLayer, 'm) Array" where
  "from_awkward source npartitions label typetracer_array tok =
     (let nrows = int (length source)
      in case chunksize_of nrows npartitions of
           Inl e \<Rightarrow> Inl e
         | Inr chunksize \<Rightarrow>
             (case py_range 0 nrows chunksize of
                Inl e \<Rightarrow> Inl e
              | Inr r \<Rightarrow>
                  let locs = r @ [nrows];
                      starts = butlast locs;
                      stops = tl locs;
                      mt = typetracer_array source
                  in from_map (Func ''_FromAwkwardFn'' (FromAwkwardFn source))
                       [Sized (map Atom starts), Sized (map Atom stops)]
                       \<lparr>kw_args = None, kw_label = Some (str_or label ''from-awkward''),
                        kw_token = Some tok, kw_divisions = Some (map Some locs),
                        kw_meta = Some mt, kw_produces_tasks = False, kw_kwargs = [],
                        kw_tokenize_value = tok\<rparr>))"

text \<open>
  The ceiling of the exact quotient, in which the properties of the chunks are stated.
\<close>

definition ceil_quotient :: "int \<Rightarrow> int \<Rightarrow> int" where
  "ceil_quotient a b = \<lceil>real_of_int a / real_of_int b\<rceil>"

section \<open>\<^verbatim>\<open>from_delayed\<close>\<close>

text \<open>
  A \<^verbatim>\<open>Delayed\<close> handle is known by its key.  The \<^verbatim>\<open>source\<close> argument is one handle
  or a list of handles; \<open>tokenize\<close> is the digest function of \<^verbatim>\<open>dask.base\<close>.
\<close>

record Delayed =
  delayed_key :: string

datatype delayed_source = Single Delayed | Several "Delayed list"

record delayed_graph =
  hlg_name :: string
  hlg_dsk :: "((string \<times> nat) \<times> string) list"
  hlg_dependencies :: "Delayed list"

definition from_delayed ::
  "(Delayed list \<Rightarrow> string) \<Rightarrow> delayed_source \<Rightarrow> 'm option \<Rightarrow> int option list option \<Rightarrow> string
     \<Rightarrow> error + (delayed_graph, 'm) Array" where
  "from_delayed tokenize source mt divs_arg prefix =
     (let parts = (case source of Single d \<Rightarrow> [d] | Several ds \<Rightarrow> ds);
          nm = prefix @ ''-'' @ tokenize parts;
          dsk = map (\<lambda>(i, part). ((nm, i), delayed_key part)) (enumerate 0 parts);
          hlg = \<lparr>hlg_name = nm, hlg_dsk = dsk, hlg_dependencies = parts\<rparr>
      in case divs_arg of
           None \<Rightarrow>
             Inr (new_array_object hlg nm mt (Divisions (replicate (length parts + 1) None)))
         | Some divs \<Rightarrow>
             if length divs \<noteq> length parts + 1
             then Inl (ValueError ''divisions must be a tuple of length len(source) + 1'')
             else Inr (new_array_object hlg nm mt (Divisions divs)))"

section \<open>\<^verbatim>\<open>to_dask_array\<close>\<close>

text \<open>
  The type of a representative value, as \<^verbatim>\<open>array._meta.layout.form.type\<close> gives it.
  Only \<open>NumpyType\<close> has the attribute \<^verbatim>\<open>primitive\<close>; list, regular and option types have
  \<^verbatim>\<open>content\<close>; record and union types have \<^verbatim>\<open>contents\<close> only.
\<close>

datatype ak_type =
    NumpyType string
  | ListType ak_type
  | RegularType ak_type nat
  | OptionType ak_type
  | RecordType "ak_type list"
  | UnionType "ak_type list"
  | UnknownType

fun type_content :: "ak_type \<Rightarrow> error + ak_type" where
  "type_content (ListType t) = Inr t"
| "type_content (RegularType t n) = Inr t"
| "type_content (OptionType t) = Inr t"
| "type_content t = Inl AttributeError"

text \<open>
  The loop \<^verbatim>\<open>while no_primitive: content = content.content\<close>; it ends because a type is a
  finite tree, and a type with neither attribute raises.
\<close>

fun descend :: "ak_type \<Rightarrow> error + string" where
  "descend (NumpyType p) = Inr p"
| "descend (ListType t) = descend t"
| "descend (RegularType t n) = descend t"
| "descend (OptionType t) = descend t"
| "descend t = Inl AttributeError"

text \<open>A chunk size of the numeric collection: \<^verbatim>\<open>np.nan\<close> or a known size.\<close>

datatype chunk = NaN | Size nat

datatype da_graph =
    MapPartitions string
  | LowLevel "((string \<times> nat list) \<times> (string \<times> nat)) list"

record DaskArray =
  da_graph :: da_graph
  da_name :: string
  da_chunks :: "chunk list list"
  da_dtype :: string

text \<open>
  Modelled from the spec: the property \<^verbatim>\<open>npartitions\<close> of a collection
  (\<^verbatim>\<open>dask_awkward.lib.core\<close>) is not among the sources.  By the spec's data model the
  divisions of a collection of \<open>N\<close> partitions have \<open>N + 1\<close> entries.
\<close>

definition npartitions :: "('g, 'm) Array \<Rightarrow> nat" where
  "npartitions a = length (divisions a) - 1"

text \<open>
  \<open>ndim\<close> is the value of \<^verbatim>\<open>array.ndim\<close>, \<open>mp_name\<close> the name of the collection that
  \<^verbatim>\<open>map_partitions(ak.to_numpy, array, ...)\<close> returns, \<open>tok\<close> the digest
  \<^verbatim>\<open>tokenize(array)\<close>.  The dtype is named by its primitive.  A tuple repeated a negative
  number of times is empty, as \<open>nat\<close> of a negative number is zero.
\<close>

definition to_dask_array ::
  "('g, ak_type) Array \<Rightarrow> int \<Rightarrow> string \<Rightarrow> string \<Rightarrow> error + DaskArray" where
  "to_dask_array array ndim mp_name tok =
     (case meta array of
        None \<Rightarrow> Inl (ValueError ''Array metadata required for determining dtype'')
      | Some ty \<Rightarrow>
          if ndim = 1
          then (case ty of
                  NumpyType p \<Rightarrow>
                    Inr \<lparr>da_graph = MapPartitions (name array), da_name = mp_name,
                         da_chunks = [replicate (npartitions array) NaN], da_dtype = p\<rparr>
                | _ \<Rightarrow> Inl AttributeError)
          else (case type_content ty of
                  Inl e \<Rightarrow> Inl e
                | Inr content \<Rightarrow>
                    (case descend content of
                       Inl e \<Rightarrow> Inl e
                     | Inr p \<Rightarrow>
                         let nm = ''to-dask-array-'' @ tok;
                             nan_tuples_innerdims = replicate (nat (ndim - 1)) [NaN];
                             chunks = replicate (npartitions array) NaN # nan_tuples_innerdims;
                             zeros = replicate (nat (ndim - 1)) 0;
                             llg = map (\<lambda>i. ((nm, i # zeros), (name array, i)))
                                     [0 ..< npartitions array]
                         in Inr \<lparr>da_graph = LowLevel llg, da_name = nm,
                                 da_chunks = chunks, da_dtype = p\<rparr>)))"

section \<open>The parquet writer's file names\<close>

text \<open>\<^verbatim>\<open>str(k)\<close> for a non-negative integer.\<close>

definition digit_char :: "nat \<Rightarrow> char" where
  "digit_char d = ''0123456789'' ! d"

fun str_nat :: "nat \<Rightarrow> string" where
  "str_nat n = (if n < 10 then [digit_char n] else str_nat (n div 10) @ [digit_char (n mod 10)])"

declare str_nat.simps [simp del]

text \<open>\<^verbatim>\<open>s.zfill(w)\<close> for a string without a sign.\<close>

definition zfill :: "nat \<Rightarrow> string \<Rightarrow> string" where
  "zfill w s = replicate (w - length s) (CHR ''0'') @ s"

text \<open>
  \<^verbatim>\<open>_ToParquetFn.__init__\<close>: the padding width \<^verbatim>\<open>math.ceil(math.log(npartitions, 10))\<close>,
  over the reals (the float computation agrees with it for every partition count up to
  two million and at the powers of ten up to \<open>10 ^ 24\<close>); the logarithm of zero raises.
\<close>

definition ToParquetFn_zfill :: "nat option \<Rightarrow> error + nat" where
  "ToParquetFn_zfill npartitions_arg =
     (case npartitions_arg of
        None \<Rightarrow> Inr 1
      | Some n \<Rightarrow>
          if n = 0 then Inl (ValueError ''math domain error'')
          else Inr (nat \<lceil>log 10 (real n)\<rceil>))"

text \<open>\<^verbatim>\<open>_ToParquetFn.__call__\<close>: the file name of the block with index \<open>k\<close>.\<close>

definition ToParquetFn_filename :: "nat \<Rightarrow> nat \<Rightarrow> string" where
  "ToParquetFn_filename zf k = ''part'' @ zfill zf (str_nat k) @ ''.parquet''"

text \<open>
  \<^verbatim>\<open>to_parquet\<close> maps \<^verbatim>\<open>_ToParquetFn(fs, path, npartitions=data.npartitions)\<close> over the
  partitions with their block indices, and \<^verbatim>\<open>_write_partition\<close> opens
  \<^verbatim>\<open>fs.sep.join([path, filename])\<close>: the paths written, in partition order.
\<close>

definition to_parquet_paths :: "string \<Rightarrow> string \<Rightarrow> nat \<Rightarrow> error + string list" where
  "to_parquet_paths sep path n =
     (case ToParquetFn_zfill (Some n) of
        Inl e \<Rightarrow> Inl e
      | Inr zf \<Rightarrow> Inr (map (\<lambda>k. path @ sep @ ToParquetFn_filename zf k) [0 ..< n]))"

section \<open>\<^verbatim>\<open>from_parquet\<close>\<close>

text \<open>
  A row group of the dataset metadata: the file path its first column chunk records
  (empty when none is recorded) and its number of rows.  The metadata object is the list
  of its row groups, in the order of the metadata.
\<close>

record row_group =
  rg_file_path :: string
  rg_num_rows :: nat

text \<open>
  What \<^verbatim>\<open>ak_from_parquet.metadata\<close> (of the awkward library) returns, as far as the planner
  reads it: the schema, the data files, the row groups selected per file (\<open>None\<close> for a
  file without a selection; the per-file selections are taken to be hashable sequences),
  the row counts per row group when the metadata pass could tell them, and the metadata
  object.
\<close>

record 's metadata_results =
  res_subform :: 's
  res_actual_paths :: "string list"
  res_subrg :: "nat list option list option"
  res_row_counts :: "nat list option"
  res_metadata :: "row_group list option"

text \<open>The items of the planner's partition sources: a path, or a row-group number.\<close>

datatype pq_item = PathItem string | RgItem nat

text \<open>
  \<^verbatim>\<open>_file_to_partition\<close> calls \<^verbatim>\<open>_load\<close> of the awkward library, a parameter here, with
  the one path, \<^verbatim>\<open>subrg or [None]\<close>, the columns and the schema.
\<close>

type_synonym ('s, 'p) loader =
  "string list \<Rightarrow> nat list option list \<Rightarrow> string list option \<Rightarrow> 's \<Rightarrow> error + 'p"

definition file_to_partition ::
  "('s, 'p) loader \<Rightarrow> string \<Rightarrow> string list option \<Rightarrow> 's \<Rightarrow> nat list option list option
     \<Rightarrow> error + 'p" where
  "file_to_partition load path columns schema subrg =
     load [path] (case subrg of None \<Rightarrow> [None] | Some s \<Rightarrow> if s = [] then [None] else s)
       columns schema"

definition FromParquetFileWiseFn ::
  "('s, 'p) loader \<Rightarrow> string list option \<Rightarrow> 's \<Rightarrow> (pq_item, 'p) callable" where
  "FromParquetFileWiseFn load columns schema pos kws =
     (case (pos, kws) of
        ([Atom (PathItem source)], []) \<Rightarrow> file_to_partition load source columns schema None
      | _ \<Rightarrow> Inl TypeError)"

definition FromParquetFragmentWiseFn ::
  "('s, 'p) loader \<Rightarrow> string list option \<Rightarrow> 's \<Rightarrow> (pq_item, 'p) callable" where
  "FromParquetFragmentWiseFn load columns schema pos kws =
     (case (pos, kws) of
        ([Tup [Atom (RgItem subrg), Atom (PathItem source)]], []) \<Rightarrow>
          file_to_partition load source columns schema (Some [Some [subrg]])
      | _ \<Rightarrow> Inl TypeError)"

text \<open>\<^verbatim>\<open>fp in p\<close> on strings: \<open>fp\<close> occurs in \<open>p\<close> as a substring.\<close>

fun starts_with :: "string \<Rightarrow> string \<Rightarrow> bool" where
  "starts_with [] ys = True"
| "starts_with (x # xs) [] = False"
| "starts_with (x # xs) (y # ys) = (x = y \<and> starts_with xs ys)"

fun str_contains :: "string \<Rightarrow> string \<Rightarrow> bool" where
  "str_contains fp [] = (fp = [])"
| "str_contains fp (c # cs) = (starts_with fp (c # cs) \<or> str_contains fp cs)"

text \<open>
  A dictionary from paths to counts, in insertion order: \<^verbatim>\<open>d[k] = v\<close> keeps the place
  of a key that is present and appends a new one.
\<close>

fun dict_set :: "(string \<times> nat) list \<Rightarrow> string \<Rightarrow> nat \<Rightarrow> (string \<times> nat) list" where
  "dict_set [] k v = [(k, v)]"
| "dict_set ((k', v') # d) k v = (if k' = k then (k, v) # d else (k', v') # dict_set d k v)"

fun dict_get :: "(string \<times> nat) list \<Rightarrow> string \<Rightarrow> nat option" where
  "dict_get [] k = None"
| "dict_get ((k', v') # d) k = (if k' = k then Some v' else dict_get d k)"

text \<open>\<^verbatim>\<open>rgs_paths = {path: 0 for path in actual_paths}\<close>.\<close>

definition rgs_paths_init :: "string list \<Rightarrow> (string \<times> nat) list" where
  "rgs_paths_init actual_paths = foldl (\<lambda>d path. dict_set d path 0) [] actual_paths"

text \<open>
  The loop over the row groups of the metadata (source lines 127 to 132): each row group
  adds one to the count of the first key of \<open>rgs_paths\<close> that contains its file path;
  \<^verbatim>\<open>[...][0]\<close> raises when no key does.
\<close>

fun count_row_groups :: "(string \<times> nat) list \<Rightarrow> row_group list \<Rightarrow> error + (string \<times> nat) list" where
  "count_row_groups rgs_paths [] = Inr rgs_paths"
| "count_row_groups rgs_paths (rg # rest) =
     (case filter (\<lambda>p. str_contains (rg_file_path rg) p) (map fst rgs_paths) of
        [] \<Rightarrow> Inl IndexError
      | rgs_path # _ \<Rightarrow>
          (case dict_get rgs_paths rgs_path of
             None \<Rightarrow> Inl KeyError
           | Some n \<Rightarrow> count_row_groups (dict_set rgs_paths rgs_path (n + 1)) rest))"

text \<open>
  The branch \<^verbatim>\<open>if set(subrg) == {None}\<close> (source lines 125 to 134).  After the loop the
  variable \<open>i\<close> holds the last index \<^verbatim>\<open>num_row_groups - 1\<close>, and is unbound when the
  metadata has no row group; the comprehension reads \<open>i\<close> once per path.
\<close>

definition subrg_all_none ::
  "string list \<Rightarrow> row_group list option \<Rightarrow> error + nat list option list" where
  "subrg_all_none actual_paths metadata =
     (case metadata of
        None \<Rightarrow> Inl AttributeError
      | Some rgs \<Rightarrow>
          (case count_row_groups (rgs_paths_init actual_paths) rgs of
             Inl e \<Rightarrow> Inl e
           | Inr rgs_paths \<Rightarrow>
               if actual_paths = [] then Inr []
               else if rgs = [] then Inl NameError
               else Inr (map (\<lambda>_. Some [0 ..< length rgs - 1]) actual_paths)))"

text \<open>\<^verbatim>\<open>itertools.accumulate(xs, operator.add)\<close>: the running sums.\<close>

fun accumulate_from :: "nat \<Rightarrow> nat list \<Rightarrow> nat list" where
  "accumulate_from acc [] = []"
| "accumulate_from acc (x # xs) = (acc + x) # accumulate_from (acc + x) xs"

definition accumulate :: "nat list \<Rightarrow> nat list" where
  "accumulate xs = accumulate_from 0 xs"

text \<open>
  The loop that builds \<open>pairs\<close> (source lines 140 to 142); \<^verbatim>\<open>zip\<close> stops at the shorter
  list, and iterating over \<^verbatim>\<open>None\<close> raises.
\<close>

fun make_pairs :: "(nat list option \<times> string) list \<Rightarrow> error + pq_item pyval list" where
  "make_pairs [] = Inr []"
| "make_pairs ((None, path) # rest) = Inl TypeError"
| "make_pairs ((Some rgs, path) # rest) =
     (case make_pairs rest of
        Inl e \<Rightarrow> Inl e
      | Inr pairs \<Rightarrow> Inr (map (\<lambda>rg. Tup [Atom (RgItem rg), Atom (PathItem path)]) rgs @ pairs))"

text \<open>Source lines 99 and 100: the granularity when the caller leaves it open.\<close>

definition resolve_split_row_groups :: "bool option \<Rightarrow> nat list option \<Rightarrow> bool" where
  "resolve_split_row_groups split_row_groups row_counts =
     (case split_row_groups of
        Some b \<Rightarrow> b
      | None \<Rightarrow> (case row_counts of None \<Rightarrow> False | Some rc \<Rightarrow> 1 < length rc))"

text \<open>
  The two plans.  \<open>mk_meta\<close> is \<^verbatim>\<open>typetracer_array(from_buffers(subform, length=0, ...))\<close>
  and \<open>tok\<close> the digest of the call's arguments, which also stands for the digest that
  \<^verbatim>\<open>from_map\<close> would take for an empty token.
\<close>

definition from_parquet_kw ::
  "string \<Rightarrow> int option list option \<Rightarrow> 'm \<Rightarrow> (pq_item, 'm) from_map_kw" where
  "from_parquet_kw tok divs mt =
     \<lparr>kw_args = None, kw_label = Some ''read-parquet'', kw_token = Some tok,
      kw_divisions = divs, kw_meta = Some mt, kw_produces_tasks = False, kw_kwargs = [],
      kw_tokenize_value = tok\<rparr>"

definition from_parquet_file_wise ::
  "('s, 'p) loader \<Rightarrow> ('s \<Rightarrow> 'm) \<Rightarrow> string \<Rightarrow> 's metadata_results \<Rightarrow> string list option
     \<Rightarrow> error + ((pq_item, 'p, 'm) AwkwardIOLayer, 'm) Array" where
  "from_parquet_file_wise load mk_meta tok res columns =
     from_map (Func ''_FromParquetFileWiseFn'' (FromParquetFileWiseFn load columns (res_subform res)))
       [Sized (map (\<lambda>p. Atom (PathItem p)) (res_actual_paths res))]
       (from_parquet_kw tok None (mk_meta (res_subform res)))"

definition from_parquet_row_group_wise ::
  "('s, 'p) loader \<Rightarrow> ('s \<Rightarrow> 'm) \<Rightarrow> string \<Rightarrow> 's metadata_results \<Rightarrow> string list option
     \<Rightarrow> nat list option list
     \<Rightarrow> error + ((pq_item, 'p, 'm) AwkwardIOLayer, 'm) Array" where
  "from_parquet_row_group_wise load mk_meta tok res columns subrg0 =
     (case (if set subrg0 = {None}
            then subrg_all_none (res_actual_paths res) (res_metadata res)
            else Inr subrg0) of
        Inl e \<Rightarrow> Inl e
      | Inr subrg \<Rightarrow>
          (case res_metadata res of
             None \<Rightarrow> Inl AttributeError
           | Some rgs \<Rightarrow>
               let divs = 0 # accumulate (map rg_num_rows rgs)
               in case make_pairs (zip subrg (res_actual_paths res)) of
                    Inl e \<Rightarrow> Inl e
                  | Inr pairs \<Rightarrow>
                      from_map
                        (Func ''_FromParquetFragmentWiseFn''
                           (FromParquetFragmentWiseFn load columns (res_subform res)))
                        [Sized pairs]
                        (from_parquet_kw tok (Some (map (\<lambda>d. Some (int d)) divs))
                           (mk_meta (res_subform res)))))"

definition from_parquet ::
  "('s, 'p) loader \<Rightarrow> ('s \<Rightarrow> 'm) \<Rightarrow> string \<Rightarrow> 's metadata_results \<Rightarrow> string list option
     \<Rightarrow> bool option
     \<Rightarrow> error + ((pq_item, 'p, 'm) AwkwardIOLayer, 'm) Array" where
  "from_parquet load mk_meta tok res columns split_row_groups =
     (let split = resolve_split_row_groups split_row_groups (res_row_counts res)
      in case res_subrg res of
           None \<Rightarrow> from_parquet_file_wise load mk_meta tok res columns
         | Some subrg0 \<Rightarrow>
             if \<not> split then from_parquet_file_wise load mk_meta tok res columns
             else from_parquet_row_group_wise load mk_meta tok res columns subrg0)"

text \<open>
  The whole call (source lines 90 to 98 and on): the metadata pass of the awkward
  library, a parameter here, is run on the caller's columns, \<^verbatim>\<open>ignore_metadata\<close> and
  \<^verbatim>\<open>scan_files\<close>, always with \<^verbatim>\<open>row_groups=None\<close>, and the plan is made from what it
  returns.
\<close>

definition from_parquet_path ::
  "('s, 'p) loader \<Rightarrow> ('s \<Rightarrow> 'm) \<Rightarrow> string
     \<Rightarrow> (string list option \<Rightarrow> bool \<Rightarrow> bool \<Rightarrow> 's metadata_results)
     \<Rightarrow> bool \<Rightarrow> bool \<Rightarrow> string list option \<Rightarrow> bool option
     \<Rightarrow> error + ((pq_item, 'p, 'm) AwkwardIOLayer, 'm) Array" where
  "from_parquet_path load mk_meta tok metadata_pass ignore_metadata scan_files columns
       split_row_groups =
     from_parquet load mk_meta tok (metadata_pass columns ignore_metadata scan_files) columns
       split_row_groups"

text \<open>
  The metadata that the loop of \<^verbatim>\<open>_metadata_file_from_data_files\<close> collects from the
  data files, in the order of the path list: each file's row groups get the file's path
  relative to the root as their file path (\<^verbatim>\<open>path[len(out_path) + 1:]\<close>) and are
  appended to the row groups collected so far.  A file is given by its path and the row
  counts of its row groups; the root has no trailing slash and the paths start with it,
  as the function asserts.
\<close>

definition file_metadata :: "string \<Rightarrow> string \<times> nat list \<Rightarrow> row_group list" where
  "file_metadata out_path f =
     map (\<lambda>n. \<lparr>rg_file_path = drop (length out_path + 1) (fst f), rg_num_rows = n\<rparr>) (snd f)"

definition metadata_from_data_files :: "string \<Rightarrow> (string \<times> nat list) list \<Rightarrow> row_group list" where
  "metadata_from_data_files out_path files = foldl (\<lambda>md f. md @ file_metadata out_path f) [] files"

section \<open>Example inputs\<close>

text \<open>Keyword arguments and a function for calls of \<^verbatim>\<open>from_map\<close> at concrete inputs.\<close>

definition ex_kw :: "(nat, unit) from_map_kw" where
  "ex_kw = \<lparr>kw_args = None, kw_label = None, kw_token = None, kw_divisions = None,
            kw_meta = None, kw_produces_tasks = False, kw_kwargs = [],
            kw_tokenize_value = ''0f''\<rparr>"

definition ex_func :: "(nat, nat) py_func" where
  "ex_func = Func ''f'' (\<lambda>pos kws. Inr (length pos))"

text \<open>A collection of three partitions with a given type of its representative value.\<close>

definition ex_array :: "ak_type \<Rightarrow> (unit, ak_type) Array" where
  "ex_array ty = \<lparr>dask = (), name = ''a'', meta = Some ty, divisions = [None, None, None, None]\<rparr>"

text \<open>
  A loader that reads nothing, and what the metadata pass returns for two datasets of
  the files \<^verbatim>\<open>d/a\<close> and \<^verbatim>\<open>d/b\<close>: one with two row groups per file and the metadata
  that the aggregation of the data files gives, and one with one row group in \<^verbatim>\<open>d/a\<close>
  and two in \<^verbatim>\<open>d/b\<close> whose metadata is the footer of \<^verbatim>\<open>d/a\<close>, whose row group records
  no file path, with the row groups of \<^verbatim>\<open>d/b\<close> appended under the file name \<^verbatim>\<open>b\<close>.
\<close>

definition ex_load :: "(unit, unit) loader" where
  "ex_load paths subrg columns schema = Inr ()"

definition ex_results :: "unit metadata_results" where
  "ex_results =
     \<lparr>res_subform = (), res_actual_paths = [''d/a'', ''d/b''], res_subrg = Some [None, None],
      res_row_counts = Some [5, 6, 7, 8],
      res_metadata = Some (metadata_from_data_files ''d'' [(''d/a'', [5, 6]), (''d/b'', [7, 8])])\<rparr>"

definition ex_row_groups_scanned :: "row_group list" where
  "ex_row_groups_scanned =
     [\<lparr>rg_file_path = [], rg_num_rows = 5\<rparr>, \<lparr>rg_file_path = ''b'', rg_num_rows = 6\<rparr>,
      \<lparr>rg_file_path = ''b'', rg_num_rows = 7\<rparr>]"

definition ex_results_scanned :: "unit metadata_results" where
  "ex_results_scanned =
     \<lparr>res_subform = (), res_actual_paths = [''d/a'', ''d/b''], res_subrg = Some [None, None],
      res_row_counts = Some [5, 6, 7], res_metadata = Some ex_row_groups_scanned\<rparr>"


text \<open>
  The metadata pass on the single file \<^verbatim>\<open>d/a\<close> of two row groups, in a directory
  without a \<^verbatim>\<open>_metadata\<close> file: it reads the footer of the file, whatever
  \<^verbatim>\<open>ignore_metadata\<close> and \<^verbatim>\<open>scan_files\<close> are.
\<close>

definition ex_single_file_pass :: "string list option \<Rightarrow> bool \<Rightarrow> bool \<Rightarrow> unit metadata_results" where
  "ex_single_file_pass columns ignore_metadata scan_files =
     \<lparr>res_subform = (), res_actual_paths = [''d/a''], res_subrg = Some [None],
      res_row_counts = Some [5, 6],
      res_metadata = Some [\<lparr>rg_file_path = [], rg_num_rows = 5\<rparr>,
                           \<lparr>rg_file_path = [], rg_num_rows = 6\<rparr>]\<rparr>"

section \<open>Properties of \<^verbatim>\<open>from_awkward\<close>\<close>

lemma round_half_even_error: "\<bar>of_int (round_half_even y) - y\<bar> \<le> 1 / 2"
proof -
  have "of_int \<lfloor>y\<rfloor> \<le> y" "y < of_int \<lfloor>y\<rfloor> + 1" by linarith+
  then show ?thesis by (auto simp add: round_half_even_def Let_def)
qed

lemma round_half_even_of_int: "round_half_even (of_int k) = k"
  by (simp add: round_half_even_def)

lemma double_round_error:
  assumes "(2::real) powr (- 1022) \<le> x"
  shows "\<bar>double_round x - x\<bar> \<le> x / 2 ^ 53"
proof -
  have xpos: "0 < x" using assms by (smt (verit) powr_gt_zero)
  define e where "e = \<lfloor>log 2 x\<rfloor>"
  define u :: real where "u = 2 powr of_int (e - 52)"
  have "- 1022 \<le> log 2 x" using assms xpos by (simp add: le_log_iff)
  then have elow: "- 1022 \<le> e" unfolding e_def by linarith
  have "of_int e \<le> log 2 x" unfolding e_def by simp
  then have pe: "(2::real) powr of_int e \<le> x" using xpos by (simp add: le_log_iff)
  have upos: "0 < u" by (simp add: u_def)
  have p52: "(2::real) powr 52 = 2 ^ 52" by (simp add: powr_numeral)
  have "u = 2 powr of_int e / 2 powr 52" unfolding u_def by (simp add: powr_diff)
  then have u2: "u * 2 ^ 52 = 2 powr of_int e" unfolding p52 by simp
  have me: "max e (- 1022) = e" using elow by simp
  have ax: "\<bar>x\<bar> = x" "sgn x = 1" "x \<noteq> 0" using xpos by simp_all
  have dr: "double_round x = u * of_int (round_half_even (x / u))"
    unfolding double_round_def Let_def ax e_def[symmetric] me u_def[symmetric]
    using ax(3) by simp
  have "\<bar>double_round x - x\<bar> = u * \<bar>of_int (round_half_even (x / u)) - x / u\<bar>"
  proof -
    have "double_round x - x = u * (of_int (round_half_even (x / u)) - x / u)"
      using upos by (simp add: dr algebra_simps)
    then show ?thesis using upos by (simp add: abs_mult)
  qed
  also have "\<dots> \<le> u * (1 / 2)"
    using upos round_half_even_error[of "x / u"] by (intro mult_left_mono) simp_all
  also have "\<dots> = 2 powr of_int e / 2 ^ 53" using u2[symmetric] by simp
  also have "\<dots> \<le> x / 2 ^ 53" using pe by (simp add: divide_right_mono)
  finally show ?thesis .
qed

lemma double_round_of_int:
  assumes "1 \<le> k" and "k < 2 ^ 53"
  shows "double_round (of_int k) = of_int k"
proof -
  define x :: real where "x = of_int k"
  have x1: "1 \<le> x" using assms(1) by (simp add: x_def)
  have x53: "x < 2 ^ 53" using assms(2) unfolding x_def by (metis of_int_less_iff of_int_numeral of_int_power)
  define e where "e = \<lfloor>log 2 x\<rfloor>"
  have "0 \<le> log 2 x" using x1 by simp
  then have e0: "0 \<le> e" unfolding e_def by simp
  have "log 2 x < 53" using x1 x53 by (simp add: log_less_iff powr_numeral)
  then have e52: "e \<le> 52" unfolding e_def by linarith
  define m where "m = nat (52 - e)"
  have em: "e - 52 = - int m" using e52 by (simp add: m_def)
  define u :: real where "u = 2 powr of_int (e - 52)"
  have u: "u = 1 / 2 ^ m"
    unfolding u_def em by (simp add: powr_minus powr_realpow inverse_eq_divide)
  have "x / u = of_int (k * 2 ^ m)" by (simp add: u x_def)
  then have "round_half_even (x / u) = k * 2 ^ m" by (simp only: round_half_even_of_int)
  then have "u * of_int (round_half_even (x / u)) = x" by (simp add: u x_def)
  moreover have "double_round x = u * of_int (round_half_even (x / u))"
  proof -
    have me: "max e (- 1022) = e" using e0 by simp
    have ax: "\<bar>x\<bar> = x" "sgn x = 1" "x \<noteq> 0" using x1 by simp_all
    show ?thesis
      unfolding double_round_def Let_def ax e_def[symmetric] me u_def[symmetric]
    using ax(3) by simp
  qed
  ultimately show ?thesis by (simp add: x_def)
qed

lemma float_quotient_ceiling:
  fixes L N :: int
  assumes L0: "0 < L" and L53: "L < 2 ^ 53" and N1: "1 \<le> N" and Nmax: "N \<le> 2 ^ 1022"
  shows "\<lceil>double_round (of_int L / of_int N)\<rceil> = \<lceil>(of_int L / of_int N :: real)\<rceil>"
    and "\<bar>double_round (of_int L / of_int N)\<bar> < 2 ^ 1024"
proof -
  define x :: real where "x = of_int L / of_int N"
  define r where "r = double_round x"
  define k where "k = \<lceil>x\<rceil>"
  have Npos: "0 < real_of_int N" using N1 by simp
  have Lr: "real_of_int L < 2 ^ 53" using L53 by (metis of_int_less_iff of_int_numeral of_int_power)
  have Nr: "real_of_int N \<le> 2 ^ 1022" using Nmax by (metis of_int_le_iff of_int_numeral of_int_power)
  have xN: "x * of_int N = of_int L" using Npos by (simp add: x_def)
  have xlow: "1 / of_int N \<le> x"
    using L0 Npos by (simp add: x_def divide_right_mono)
  have "(2::real) powr (- 1022) = 1 / 2 ^ 1022"
    by (simp add: powr_minus powr_numeral inverse_eq_divide)
  moreover have "1 / (2::real) ^ 1022 \<le> 1 / of_int N"
    using Npos Nr by (intro divide_left_mono) simp_all
  ultimately have norm: "(2::real) powr (- 1022) \<le> x" using xlow by linarith
  have err: "\<bar>r - x\<bar> \<le> x / 2 ^ 53" unfolding r_def by (rule double_round_error[OF norm])
  have "x / 2 ^ 53 = (of_int L / 2 ^ 53) / of_int N" by (simp add: x_def)
  also have "\<dots> < 1 / of_int N"
    using Lr Npos by (intro divide_strict_right_mono) simp_all
  finally have small: "x / 2 ^ 53 < 1 / of_int N" .
  have xle: "x \<le> of_int L"
  proof -
    have "of_int L / of_int N \<le> of_int L / (1::real)"
      using L0 N1 by (intro divide_left_mono) simp_all
    then show ?thesis by (simp add: x_def)
  qed
  have xpos: "0 < x" using xlow Npos by (smt (verit) divide_pos_pos)
  have "\<bar>r\<bar> \<le> x + x / 2 ^ 53" using err xpos by linarith
  also have "\<dots> \<le> 2 * x" using xpos by simp
  also have "\<dots> < 2 * 2 ^ 53" using xle Lr by linarith
  also have "\<dots> \<le> (2::real) ^ 1024" by simp
  finally show "\<bar>double_round (of_int L / of_int N)\<bar> < 2 ^ 1024"
    unfolding r_def x_def .
  have "\<lceil>r\<rceil> = k"
  proof (cases "N dvd L")
    case True
    then obtain q where q: "L = N * q" by (elim dvdE)
    have xq: "x = of_int q" using Npos by (simp add: x_def q)
    have "0 < q" using L0 N1 q by (simp add: zero_less_mult_iff)
    then have q1: "1 \<le> q" by simp
    have "1 * q \<le> N * q" using N1 q1 by (intro mult_right_mono) simp_all
    then have "q \<le> L" using q by simp
    then have "q < 2 ^ 53" using L53 by linarith
    then have "r = of_int q" unfolding r_def xq using q1 by (intro double_round_of_int)
    then show ?thesis by (simp add: k_def xq)
  next
    case False
    have k1: "real_of_int k - 1 < x" and k2: "x \<le> of_int k" unfolding k_def by linarith+
    have "real_of_int ((k - 1) * N) < of_int L"
    proof -
      have "(real_of_int k - 1) * of_int N < x * of_int N"
        using k1 Npos by (intro mult_strict_right_mono)
      then show ?thesis by (simp add: xN)
    qed
    then have lo: "(k - 1) * N < L" by linarith
    have "real_of_int L \<le> of_int (k * N)"
    proof -
      have "x * of_int N \<le> of_int k * of_int N"
        using k2 Npos by (intro mult_right_mono) simp_all
      then show ?thesis by (simp add: xN)
    qed
    then have "L \<le> k * N" by linarith
    moreover have "L \<noteq> k * N" using False by auto
    ultimately have hi: "L < k * N" by simp
    have "real_of_int ((k - 1) * N) + 1 \<le> of_int L" using lo by linarith
    then have "(real_of_int k - 1) * of_int N + 1 \<le> x * of_int N" by (simp add: xN)
    then have "(real_of_int k - 1) + 1 / of_int N \<le> x"
      using Npos by (simp add: field_simps)
    then have a: "real_of_int k - 1 < r" using err small by linarith
    have "real_of_int L + 1 \<le> of_int (k * N)" using hi by linarith
    then have "x * of_int N + 1 \<le> of_int k * of_int N" by (simp add: xN)
    then have "x + 1 / of_int N \<le> of_int k"
      using Npos by (simp add: field_simps)
    then have b: "r \<le> of_int k" using err small by linarith
    from a b show ?thesis by (rule ceiling_unique)
  qed
  then show "\<lceil>double_round (of_int L / of_int N)\<rceil> = \<lceil>(of_int L / of_int N :: real)\<rceil>"
    unfolding r_def k_def x_def .
qed

text \<open>
  For a quotient of integers \<open>0 < L < 2 ^ 53\<close> and \<open>1 \<le> N \<le> 2 ^ 1022\<close> the float is within
  \<open>1 / N\<close> of the exact quotient, and equal to it when the quotient is an integer, so that
  rounding up gives the exact ceiling.
\<close>

lemma chunksize_of_exact:
  assumes "0 < L" and "L < 2 ^ 53" and "1 \<le> N" and "N \<le> 2 ^ 1022"
  shows "chunksize_of L N = Inr (ceil_quotient L N)"
proof -
  have "N \<noteq> 0" using assms(3) by simp
  moreover have "\<not> 2 ^ 1024 \<le> \<bar>double_round (real_of_int L / real_of_int N)\<bar>"
    using float_quotient_ceiling(2)[OF assms] by simp
  ultimately show ?thesis
    by (simp add: chunksize_of_def py_true_div_def Let_def ceil_quotient_def
          float_quotient_ceiling(1)[OF assms])
qed

lemma chunksize_of_zero: "N \<noteq> 0 \<Longrightarrow> chunksize_of 0 N = Inr 0"
  by (simp add: chunksize_of_def py_true_div_def double_round_def)

lemma concat_chunks: "concat (map (\<lambda>i. take c (drop (i * c) xs)) [0..<n]) = take (n * c) xs"
proof (induction n)
  case 0
  show ?case by simp
next
  case (Suc n)
  have "take (Suc n * c) xs = take (n * c + c) xs" by (simp add: add.commute)
  also have "\<dots> = take (n * c) xs @ take c (drop (n * c) xs)" by (rule take_add)
  finally show ?case using Suc by simp
qed

lemma ceil_quotient_div: "ceil_quotient L N = - ((- L) div N)"
  unfolding ceil_quotient_def by (rule ceiling_divide_eq_div)

lemma chunksize_pos: "0 < L \<Longrightarrow> 1 \<le> N \<Longrightarrow> 1 \<le> ceil_quotient L N"
  unfolding ceil_quotient_def by (simp add: pos_less_divide_eq Suc_le_eq)

lemma chunksize_cover:
  assumes "1 \<le> N"
  shows "L \<le> N * ceil_quotient L N"
proof -
  have "(- L) div N * N + (- L) mod N = - L" by simp
  moreover have "0 \<le> (- L) mod N" using assms by simp
  ultimately have "(- L) div N * N \<le> - L" by linarith
  then show ?thesis by (simp add: ceil_quotient_div mult.commute)
qed

lemma nchunks_bounds:
  fixes L c :: int
  assumes "0 < L" "1 \<le> c"
  defines "q \<equiv> (L + c - 1) div c"
  shows "1 \<le> q" and "(q - 1) * c < L" and "L \<le> q * c"
proof -
  have eq: "q * c + (L + c - 1) mod c = L + c - 1" unfolding q_def by simp
  have m0: "0 \<le> (L + c - 1) mod c" and m1: "(L + c - 1) mod c < c" using assms by simp_all
  from eq m0 have "q * c \<le> L + c - 1" by linarith
  then show "(q - 1) * c < L" by (simp add: algebra_simps)
  from eq m1 have "L + c - 1 < q * c + c" by linarith
  then show "L \<le> q * c" by linarith
  have "0 < q * c" using \<open>L \<le> q * c\<close> assms(1) by linarith
  then have "0 < q" using assms(2) by (simp add: zero_less_mult_iff)
  then show "1 \<le> q" by simp
qed


text \<open>
  Outside these bounds the chunk size is not the exact ceiling: the quotient
  \<open>(2 ^ 53 + 1) / 1\<close> is a tie and rounds to \<open>2 ^ 53\<close>, and the quotient \<open>1 / 10 ^ 400\<close>
  rounds to zero.
\<close>

lemma double_round_tie: "double_round (2 ^ 53 + 1) = 2 ^ 53"
proof -
  define x :: real where "x = 2 ^ 53 + 1"
  have xpos: "0 < x" by (simp add: x_def)
  have "53 \<le> log 2 x" using xpos by (simp add: le_log_iff powr_numeral x_def)
  moreover have "log 2 x < 54" using xpos by (simp add: log_less_iff powr_numeral x_def)
  ultimately have e: "\<lfloor>log 2 x\<rfloor> = 53" by linarith
  have u: "(2::real) powr of_int (53 - 52) = 2" by simp
  have "round_half_even (x / 2) = 2 ^ 52"
    by (simp add: round_half_even_def Let_def x_def)
  then have "double_round x = 2 * of_int (2 ^ 52 :: int)"
    using xpos by (simp add: double_round_def Let_def e)
  then show ?thesis by (simp add: x_def)
qed

lemma chunksize_of_beyond_53: "chunksize_of (2 ^ 53 + 1) 1 = Inr (2 ^ 53)"
proof -
  have "double_round (real_of_int (2 ^ 53 + 1) / real_of_int 1) = 2 ^ 53"
    using double_round_tie by simp
  then show ?thesis by (simp add: chunksize_of_def py_true_div_def Let_def)
qed

lemma round_half_even_small:
  assumes "0 \<le> y" and "y < 1 / 2"
  shows "round_half_even y = 0"
proof -
  have "\<lfloor>y\<rfloor> = 0" using assms by (simp add: floor_eq_iff)
  then show ?thesis using assms by (simp add: round_half_even_def Let_def)
qed

lemma double_round_underflow: "double_round (1 / 10 ^ 400) = 0"
proof -
  define x :: real where "x = 1 / 10 ^ 400"
  have xpos: "0 < x" by (simp add: x_def)
  have "x < 2 powr (- 1023)"
    by (simp add: x_def powr_minus powr_numeral inverse_eq_divide field_simps)
  then have "log 2 x < - 1023" using xpos by (simp add: log_less_iff)
  then have "\<lfloor>log 2 x\<rfloor> \<le> - 1022" by linarith
  then have e: "max \<lfloor>log 2 \<bar>x\<bar>\<rfloor> (- 1022) = - 1022" using xpos by simp
  have u: "(2::real) powr of_int (- 1022 - 52) = 1 / 2 ^ 1074"
    by (simp add: powr_minus powr_numeral inverse_eq_divide)
  have q: "\<bar>x\<bar> / (1 / 2 ^ 1074) = 2 ^ 1074 / 10 ^ 400" by (simp add: x_def)
  have "(0::real) \<le> 2 ^ 1074 / 10 ^ 400" "(2::real) ^ 1074 / 10 ^ 400 < 1 / 2" by simp_all
  then have "round_half_even (2 ^ 1074 / 10 ^ 400) = 0"
    by (rule round_half_even_small)
  then show ?thesis
    using xpos unfolding double_round_def Let_def e u q x_def[symmetric] by simp
qed

lemma chunksize_of_underflow: "chunksize_of 1 (10 ^ 400) = Inr 0"
proof -
  have "double_round (real_of_int 1 / real_of_int (10 ^ 400)) = 0"
    using double_round_underflow by simp
  then show ?thesis by (simp add: chunksize_of_def py_true_div_def Let_def)
qed

lemma py_range_pos: "0 < step \<Longrightarrow> py_range 0 stop step = Inr (map (\<lambda>k. int k * step) [0 ..< nat ((stop + step - 1) div step)])"
  by (simp add: py_range_def)

lemma zip_star_two: "length xs = length ys \<Longrightarrow> zip_star [xs, ys] = map (\<lambda>i. Tup [xs ! i, ys ! i]) [0..<length xs]"
  by (simp add: zip_star_def)

lemma from_map_two_sized:
  assumes "length xs = length ys" and "xs \<noteq> []" and "\<not> kw_produces_tasks kw"
  shows "from_map (Func fn f) [Sized xs, Sized ys] kw
           = Inr (from_map_build fn f (zip_star [xs, ys]) True kw)"
  using assms by (auto simp add: from_map_def Let_def)

lemma materialize_from_awkward:
  "PackedArgCallable_call \<lparr>pac_func = FromAwkwardFn src, pac_args = None, pac_kwargs = Some [], pac_packed = True\<rparr>
       (Tup [Atom s, Atom e]) = Inr (py_slice src s e)"
  by (simp add: PackedArgCallable_call_def FromAwkwardFn_def)

lemma py_slice_chunk:
  assumes "int i * int c < int (length xs)"
  shows "py_slice xs (int i * int c) (min (int (Suc i) * int c) (int (length xs))) = take c (drop (i * c) xs)"
proof -
  let ?L = "int (length xs)"
  have s: "min (int i * int c) ?L = int i * int c" using assms by simp
  have "0 \<le> int i * int c" by simp
  then have nn: "\<not> int i * int c < 0" by linarith
  have "0 \<le> int (Suc i) * int c" by simp
  then have nn2: "\<not> min (int (Suc i) * int c) ?L < 0" by linarith
  have e: "nat (min (int (Suc i) * int c) ?L - int i * int c) = min c (length xs - i * c)"
    using assms by (auto simp: min_def algebra_simps nat_diff_distrib' nat_mult_distrib simp flip: of_nat_mult)
  have "py_slice xs (int i * int c) (min (int (Suc i) * int c) ?L)
        = take (min c (length xs - i * c)) (drop (nat (int i * int c)) xs)"
    unfolding py_slice_def Let_def using nn nn2 s e by (simp del: of_nat_Suc)
  also have "nat (int i * int c) = i * c" by (simp add: nat_mult_distrib)
  also have "take (min c (length xs - i * c)) (drop (i * c) xs) = take c (drop (i * c) xs)"
    by (simp add: min_def)
  finally show ?thesis .
qed


lemma from_awkward_unfold:
  fixes source :: "'r list"
  assumes N: "1 \<le> N" and ne: "source \<noteq> []"
    and small: "length source < 2 ^ 53" and Nmax: "N \<le> 2 ^ 1022"
  defines "L \<equiv> int (length source)"
  defines "c \<equiv> nat (ceil_quotient L N)"
  defines "n \<equiv> nat ((L + int c - 1) div int c)"
  shows "from_awkward source N label tt tok =
           Inr (from_map_build ''_FromAwkwardFn'' (FromAwkwardFn source)
                  (map (\<lambda>i. Tup [Atom (int i * int c), Atom (min (int (Suc i) * int c) L)]) [0..<n])
                  True
                  \<lparr>kw_args = None, kw_label = Some (str_or label ''from-awkward''),
                   kw_token = Some tok,
                   kw_divisions = Some (map (\<lambda>k. Some (min (int k * int c) L)) [0..<n + 1]),
                   kw_meta = Some (tt source), kw_produces_tasks = False, kw_kwargs = [],
                   kw_tokenize_value = tok\<rparr>)"
    and "1 \<le> c" and "1 \<le> n" and "int n \<le> N" and "int (n - 1) * int c < L" and "L \<le> int n * int c"
    and "int c = ceil_quotient L N"
proof -
  have Lpos: "0 < L" using ne by (simp add: L_def)
  have cs: "1 \<le> ceil_quotient L N" using Lpos N by (rule chunksize_pos)
  then show ceq: "int c = ceil_quotient L N" by (simp add: c_def)
  from cs show c1: "1 \<le> c" by (simp add: c_def)
  have c1': "1 \<le> int c" using c1 by simp
  note nb = nchunks_bounds[OF Lpos c1']
  have nq: "int n = (L + int c - 1) div int c" using nb(1) by (simp add: n_def)
  show n1: "1 \<le> n" using nb(1) nq by linarith
  have lo: "(int n - 1) * int c < L" using nb(2) nq by simp
  then show lo': "int (n - 1) * int c < L" using n1 by (simp add: of_nat_diff)
  show hi: "L \<le> int n * int c" using nb(3) nq by simp
  have cov: "L \<le> N * int c" using chunksize_cover[OF N, of L] ceq by simp
  have "(int n - 1) * int c < N * int c" using lo cov by linarith
  then have "int n - 1 < N" using c1' by (simp add: mult_less_cancel_right)
  then show nN: "int n \<le> N" by simp
  have below: "int k * int c < L" if "k < n" for k
  proof -
    have "int k \<le> int n - 1" using that by simp
    then have "int k * int c \<le> (int n - 1) * int c" using c1' by (simp add: mult_right_mono)
    with lo show ?thesis by linarith
  qed
  let ?starts = "map (\<lambda>k. int k * int c) [0..<n]"
  let ?stops = "map (\<lambda>i. min (int (Suc i) * int c) L) [0..<n]"
  let ?locs = "?starts @ [L]"
  have rng: "py_range 0 L (int c) = Inr ?starts"
    using c1' by (simp add: py_range_pos n_def)
  have bl: "butlast ?locs = ?starts" by simp
  have tl: "tl ?locs = ?stops"
  proof (rule nth_equalityI)
    show "length (tl ?locs) = length ?stops" by simp
  next
    fix i assume "i < length (tl ?locs)"
    then have i: "i < n" by simp
    have step: "tl ?locs ! i = ?locs ! Suc i" using i by (intro nth_tl) simp
    show "tl ?locs ! i = ?stops ! i"
    proof (cases "Suc i < n")
      case True
      then have "?locs ! Suc i = int (Suc i) * int c"
        by (simp add: nth_append del: of_nat_Suc)
      with step have "tl ?locs ! i = int (Suc i) * int c" by simp
      moreover have "int (Suc i) * int c < L" using below[OF True] .
      ultimately show ?thesis using i by (simp del: of_nat_Suc)
    next
      case False
      with i have e: "Suc i = n" by simp
      then have "?locs ! Suc i = L" by (simp add: nth_append del: of_nat_Suc)
      with step have "tl ?locs ! i = L" by simp
      moreover have "min (int (Suc i) * int c) L = L" using hi e by (simp del: of_nat_Suc)
      ultimately show ?thesis using i by (simp del: of_nat_Suc)
    qed
  qed
  have below': "int k * int c \<le> L" if "k < n" for k
    using below[OF that] by simp
  have divs: "map Some ?locs = map (\<lambda>k. Some (min (int k * int c) L)) [0..<n + 1]"
    using hi by (simp add: min_def below')
  have zs: "zip_star [map Atom ?starts, map Atom ?stops]
              = map (\<lambda>i. Tup [Atom (int i * int c), Atom (min (int (Suc i) * int c) L)]) [0..<n]"
    by (simp add: zip_star_two del: of_nat_Suc)
  have ne': "map Atom ?starts \<noteq> []" using n1 by simp
  have "int (length source) < int (2 ^ 53)" using small by (simp only: of_nat_less_iff)
  then have "L < 2 ^ 53" by (simp add: L_def)
  then have cso: "chunksize_of L N = Inr (ceil_quotient L N)"
    using Lpos N Nmax by (intro chunksize_of_exact)
  have fm: "from_map (Func ''_FromAwkwardFn'' (FromAwkwardFn source))
              [Sized (map Atom ?starts), Sized (map Atom ?stops)] kw
            = Inr (from_map_build ''_FromAwkwardFn'' (FromAwkwardFn source)
                     (zip_star [map Atom ?starts, map Atom ?stops]) True kw)"
    if "\<not> kw_produces_tasks kw" for kw :: "(int, 'm) from_map_kw"
    using that n1 by (intro from_map_two_sized) simp_all
  show "from_awkward source N label tt tok = Inr (from_map_build ''_FromAwkwardFn'' (FromAwkwardFn source)
                  (map (\<lambda>i. Tup [Atom (int i * int c), Atom (min (int (Suc i) * int c) L)]) [0..<n])
                  True
                  \<lparr>kw_args = None, kw_label = Some (str_or label ''from-awkward''),
                   kw_token = Some tok,
                   kw_divisions = Some (map (\<lambda>k. Some (min (int k * int c) L)) [0..<n + 1]),
                   kw_meta = Some (tt source), kw_produces_tasks = False, kw_kwargs = [],
                   kw_tokenize_value = tok\<rparr>)"
    unfolding from_awkward_def Let_def L_def[symmetric]
    apply (simp only: cso ceq[symmetric] rng sum.case bl tl divs)
    apply (subst fm)
     apply simp
    apply (simp only: zs)
    done
qed

text \<open>
  Claim C1 fails as stated: five rows asked for in four partitions come out as three
  partitions of two, two and one rows, and an empty array makes \<^verbatim>\<open>range\<close> raise on a
  zero step.
\<close>

theorem from_awkward_fewer_partitions:
  "(case from_awkward [10, 20, 30, 40, 50 :: nat] 4 None (\<lambda>_. ()) ''t'' of
      Inl e \<Rightarrow> False
    | Inr a \<Rightarrow> length (layer_inputs (dask a)) = 3
             \<and> divisions a = [Some 0, Some 2, Some 4, Some 5]
             \<and> materialize (dask a) = [Inr [10, 20], Inr [30, 40], Inr [50]])
   \<and> from_awkward ([] :: nat list) 3 None (\<lambda>_. ()) ''t''
       = Inl (ValueError ''range() arg 3 must not be zero'')"
proof -
  have u3: "[0..<3] = [0, 1, 2]" by code_simp
  have "chunksize_of 5 4 = Inr (ceil_quotient 5 4)" by (rule chunksize_of_exact) simp_all
  then have c54: "chunksize_of 5 4 = Inr 2" by (simp add: ceil_quotient_div)
  have c03: "chunksize_of 0 3 = Inr 0" by (rule chunksize_of_zero) simp
  show ?thesis
    by (simp add: from_awkward_def c54 c03 py_range_def from_map_def zip_star_def
        from_map_build_def new_array_object_def materialize_def PackedArgCallable_call_def
        FromAwkwardFn_def py_slice_def Let_def u3)
qed

text \<open>
  Claim C1, amended: for every \<open>N\<close> from \<open>1\<close> to \<open>2 ^ 1022\<close> and every array of \<open>L\<close> rows,
  \<open>1 \<le> L < 2 ^ 53\<close> (where the float quotient rounds up to the exact ceiling),
  \<^verbatim>\<open>from_awkward(arr, N)\<close> returns a collection of \<open>\<lceil>L / \<lceil>L / N\<rceil>\<rceil>\<close> partitions, which is
  at least one and at most \<open>N\<close>; the partitions materialize without error and their
  concatenated rows are \<open>arr\<close>; the divisions are the multiples of the chunk size
  \<open>\<lceil>L / N\<rceil>\<close> cut off at \<open>L\<close>, one more than there are partitions, the last being \<open>L\<close>;
  every partition but the last has exactly \<open>\<lceil>L / N\<rceil>\<close> rows and the last has between one
  and \<open>\<lceil>L / N\<rceil>\<close> rows.
\<close>

theorem from_awkward_chunks:
  fixes source :: "'r list" and N :: int and tt :: "'r list \<Rightarrow> 'm"
  assumes N: "1 \<le> N" and ne: "source \<noteq> []"
    and small: "length source < 2 ^ 53" and Nmax: "N \<le> 2 ^ 1022"
  shows "\<exists>a parts.
      from_awkward source N label tt tok = Inr a
    \<and> materialize (dask a) = map Inr parts
    \<and> concat parts = source
    \<and> length (layer_inputs (dask a)) = length parts
    \<and> length (divisions a) = length parts + 1
    \<and> int (length parts)
        = \<lceil>real (length source) / real_of_int (ceil_quotient (int (length source)) N)\<rceil>
    \<and> 1 \<le> length parts \<and> int (length parts) \<le> N
    \<and> divisions a
        = map (\<lambda>k. Some (min (int k * ceil_quotient (int (length source)) N) (int (length source))))
            [0 ..< length parts + 1]
    \<and> last (divisions a) = Some (int (length source))
    \<and> (\<forall>i. i + 1 < length parts
           \<longrightarrow> int (length (parts ! i)) = ceil_quotient (int (length source)) N)
    \<and> 0 < length (last parts)
    \<and> int (length (last parts)) \<le> ceil_quotient (int (length source)) N"
proof -
  define L where "L = int (length source)"
  define c where "c = nat (ceil_quotient L N)"
  define n where "n = nat ((L + int c - 1) div int c)"
  define kw :: "(int, 'm) from_map_kw" where
    "kw = \<lparr>kw_args = None, kw_label = Some (str_or label ''from-awkward''),
            kw_token = Some tok,
            kw_divisions = Some (map (\<lambda>k. Some (min (int k * int c) L)) [0..<n + 1]),
            kw_meta = Some (tt source), kw_produces_tasks = False, kw_kwargs = [],
            kw_tokenize_value = tok\<rparr>"
  define ins where
    "ins = map (\<lambda>i. Tup [Atom (int i * int c), Atom (min (int (Suc i) * int c) L)]) [0..<n]"
  define a where "a = from_map_build ''_FromAwkwardFn'' (FromAwkwardFn source) ins True kw"
  define parts where "parts = map (\<lambda>i. take c (drop (i * c) source)) [0..<n]"
  note u1 = from_awkward_unfold(1)[OF N ne small Nmax, where label = label and tt = tt and tok = tok,
      folded L_def, folded c_def, folded n_def]
  note u = from_awkward_unfold(2-7)[OF N ne small Nmax, folded L_def, folded c_def, folded n_def]
  have res: "from_awkward source N label tt tok = Inr a"
    unfolding a_def ins_def kw_def by (rule u1)
  have c1: "1 \<le> c" and n1: "1 \<le> n" and nN: "int n \<le> N"
    and lo: "int (n - 1) * int c < L" and hi: "L \<le> int n * int c"
    and ceq: "int c = ceil_quotient L N"
    using u by blast+
  have below: "int k * int c < L" if "k < n" for k
  proof -
    have "int k \<le> int (n - 1)" using that by simp
    then have "int k * int c \<le> int (n - 1) * int c" by (intro mult_right_mono) simp_all
    with lo show ?thesis by linarith
  qed
  have dask_a: "layer_inputs (dask a) = ins"
    and io_a: "layer_io_func (dask a)
       = Wrapped \<lparr>pac_func = FromAwkwardFn source, pac_args = None, pac_kwargs = Some [], pac_packed = True\<rparr>"
    and div_a: "divisions a = map (\<lambda>k. Some (min (int k * int c) L)) [0..<n + 1]"
    by (simp_all add: a_def from_map_build_def new_array_object_def kw_def Let_def)
  have mat: "materialize (dask a) = map Inr parts"
    unfolding materialize_def dask_a io_a ins_def parts_def map_map comp_def
    by (rule map_cong[OF refl])
       (use below in \<open>simp add: materialize_from_awkward py_slice_chunk[of _ c source, folded L_def] del: of_nat_Suc\<close>)
  have "int (length source) \<le> int (n * c)" using hi by (simp add: L_def)
  then have "length source \<le> n * c" by linarith
  then have cat: "concat parts = source" by (simp add: parts_def concat_chunks)
  have len: "length parts = n" by (simp add: parts_def)
  have ceil: "int n = \<lceil>real (length source) / real_of_int (ceil_quotient L N)\<rceil>"
  proof -
    have cpos: "0 < real c" using c1 by simp
    have "real_of_int (int n) - 1 < real (length source) / real c"
    proof -
      have "real_of_int (int (n - 1) * int c) < real_of_int L" using lo by linarith
      then have "real (n - 1) * real c < real (length source)" by (simp add: L_def)
      then have "real (n - 1) < real (length source) / real c" using cpos by (simp add: pos_less_divide_eq)
      then show ?thesis using n1 by (simp add: of_nat_diff)
    qed
    moreover have "real (length source) / real c \<le> real_of_int (int n)"
    proof -
      have "real_of_int L \<le> real_of_int (int n * int c)" using hi by linarith
      then have "real (length source) \<le> real n * real c" by (simp add: L_def)
      then show ?thesis using cpos by (simp add: pos_divide_le_eq)
    qed
    ultimately have "\<lceil>real (length source) / real c\<rceil> = int n" by (rule ceiling_unique)
    moreover have "real_of_int (ceil_quotient L N) = real c" using ceq by (metis of_int_of_nat_eq)
    ultimately show ?thesis by simp
  qed
  have lastdiv: "last (divisions a) = Some L"
    using hi by (simp add: div_a min_def)
  have sizes: "int (length (parts ! i)) = int c" if "i + 1 < n" for i
  proof -
    have "int (Suc i) * int c < L" using below[of "Suc i"] that by simp
    then have "int (i * c + c) < int (length source)" by (simp add: L_def algebra_simps)
    then have "i * c + c < length source" by linarith
    then show ?thesis using that by (simp add: parts_def)
  qed
  have lastp: "last parts = take c (drop ((n - 1) * c) source)"
    using n1 by (simp add: parts_def last_map)
  have "int ((n - 1) * c) < int (length source)" using lo by (simp add: L_def)
  then have "(n - 1) * c < length source" by linarith
  then have lastpos: "0 < length (last parts)" using c1 by (simp add: lastp)
  have lastle: "length (last parts) \<le> c" by (simp add: lastp)
  show ?thesis
    apply (rule exI[of _ a], rule exI[of _ parts])
    unfolding L_def[symmetric] ceq[symmetric] len
    using res mat cat dask_a div_a ceil[unfolded ceq[symmetric]] n1 nN lastdiv sizes lastpos lastle
    by (simp add: ins_def)
qed

text \<open>The amended claim C1 at three rows in two partitions.\<close>

theorem from_awkward_chunks_witness:
  "(1::int) \<le> 2 \<and> [10, 20, 30 :: nat] \<noteq> []
   \<and> length [10, 20, 30 :: nat] < 2 ^ 53 \<and> (2::int) \<le> 2 ^ 1022 \<and>
   (\<exists>a parts. from_awkward [10, 20, 30 :: nat] 2 None (\<lambda>_. ()) ''t'' = Inr a
      \<and> materialize (dask a) = map Inr parts
      \<and> concat parts = [10, 20, 30]
      \<and> length parts = 2
      \<and> last (divisions a) = Some 3)"
proof -
  have h1: "(1::int) \<le> 2" and h2: "[10, 20, 30 :: nat] \<noteq> []"
    and h3: "length [10, 20, 30 :: nat] < 2 ^ 53" and h4: "(2::int) \<le> 2 ^ 1022"
    by simp_all
  have cs: "ceil_quotient 3 2 = 2" by (simp add: ceil_quotient_def)
  from from_awkward_chunks[OF h1 h2 h3 h4, where label = None and tt = "\<lambda>_. ()" and tok = "''t''"]
  obtain a parts where
    "from_awkward [10, 20, 30 :: nat] 2 None (\<lambda>_. ()) ''t'' = Inr a"
    "materialize (dask a) = map Inr parts"
    "concat parts = [10, 20, 30]"
    "int (length parts) = \<lceil>real (length [10, 20, 30 :: nat]) / real_of_int (ceil_quotient (int (length [10, 20, 30 :: nat])) 2)\<rceil>"
    "last (divisions a) = Some (int (length [10, 20, 30 :: nat]))"
    by blast
  moreover from this(4) have "length parts = 2" by (simp add: cs)
  ultimately show ?thesis using h1 h2 h3 h4 by auto
qed

section \<open>Properties of \<^verbatim>\<open>from_map\<close> and \<^verbatim>\<open>from_delayed\<close>\<close>

lemma card_lengths_zero:
  "card (set (map length (map items iterables))) = 0 \<longleftrightarrow> iterables = []"
  by simp

lemma card_lengths_gt_one:
  assumes "a \<in> set iterables" and "b \<in> set iterables"
    and "length (items a) \<noteq> length (items b)"
  shows "1 < card (set (map length (map items iterables)))"
proof -
  let ?S = "set (map length (map items iterables))"
  have "{length (items a), length (items b)} \<subseteq> ?S" using assms(1,2) by auto
  then have "card {length (items a), length (items b)} \<le> card ?S"
    by (intro card_mono) simp_all
  then show ?thesis using assms(3) by simp
qed

lemma lengths_all_zero:
  assumes "iterables \<noteq> []" and "\<forall>a \<in> set iterables. items a = []"
  shows "set (map length (map items iterables)) = {0}"
  using assms by (cases iterables) auto

text \<open>
  Claim C8: a call of \<^verbatim>\<open>from_map\<close> whose function is not callable, or that has no
  iterables, or two iterables of different lengths, or only iterables of length zero,
  raises \<^verbatim>\<open>ValueError\<close>; the result is the error, so that no layer and no collection
  is built.
\<close>

theorem from_map_configuration_errors:
  fixes func :: "('a, 'p) py_func" and kw :: "('a, 'm) from_map_kw"
  assumes "func = NotCallable
         \<or> iterables = []
         \<or> (\<exists>a \<in> set iterables. \<exists>b \<in> set iterables. length (items a) \<noteq> length (items b))
         \<or> (\<forall>a \<in> set iterables. items a = [])"
  shows "\<exists>msg. from_map func iterables kw = Inl (ValueError msg)"
proof (cases func)
  case NotCallable
  then show ?thesis by (simp add: from_map_def)
next
  case (Func fname f)
  show ?thesis
  proof (cases "NotIterable \<in> set iterables")
    case True
    then show ?thesis by (simp add: from_map_def Func)
  next
    case allit: False
    let ?S = "set (map length (map items iterables))"
    consider (empty) "iterables = []"
      | (unequal) "\<exists>a \<in> set iterables. \<exists>b \<in> set iterables. length (items a) \<noteq> length (items b)"
      | (zero) "iterables \<noteq> []" "\<forall>a \<in> set iterables. items a = []"
      using assms Func by blast
    then show ?thesis
    proof cases
      case empty
      then show ?thesis by (simp add: from_map_def Func)
    next
      case unequal
      then have gt: "1 < card ?S" using card_lengths_gt_one by blast
      then have c0: "card ?S \<noteq> 0" by linarith
      show ?thesis
        by (simp only: from_map_def Let_def Func py_func.case allit c0 gt if_False if_True) blast
    next
      case zero
      then have z: "?S = {0}" by (rule lengths_all_zero)
      have c0: "card {0::nat} \<noteq> 0" and c1: "\<not> 1 < card {0::nat}" by simp_all
      show ?thesis
        by (simp only: from_map_def Let_def Func py_func.case allit z c0 c1 if_False if_True
              refl) blast
    qed
  qed
qed

text \<open>Claim C8 at two iterables of lengths two and one.\<close>

theorem from_map_configuration_errors_witness:
  "(\<exists>a \<in> set [Sized [Atom 1, Atom 2], Sized [Atom (3::nat)]].
      \<exists>b \<in> set [Sized [Atom 1, Atom 2], Sized [Atom (3::nat)]]. length (items a) \<noteq> length (items b))
   \<and> (\<exists>msg. from_map ex_func [Sized [Atom 1, Atom 2], Sized [Atom 3]] ex_kw = Inl (ValueError msg))"
proof -
  have h: "\<exists>a \<in> set [Sized [Atom 1, Atom 2], Sized [Atom (3::nat)]].
      \<exists>b \<in> set [Sized [Atom 1, Atom 2], Sized [Atom (3::nat)]]. length (items a) \<noteq> length (items b)"
    by auto
  then have "ex_func = NotCallable
         \<or> [Sized [Atom 1, Atom 2], Sized [Atom (3::nat)]] = []
         \<or> (\<exists>a \<in> set [Sized [Atom 1, Atom 2], Sized [Atom (3::nat)]].
      \<exists>b \<in> set [Sized [Atom 1, Atom 2], Sized [Atom (3::nat)]]. length (items a) \<noteq> length (items b))
         \<or> (\<forall>a \<in> set [Sized [Atom 1, Atom 2], Sized [Atom (3::nat)]]. items a = [])"
    by blast
  from from_map_configuration_errors[OF this, of ex_kw] h show ?thesis by blast
qed

text \<open>
  Claim C9: a call of \<^verbatim>\<open>from_map\<close> with \<^verbatim>\<open>produces_tasks=True\<close> and more than one
  iterable raises \<^verbatim>\<open>ValueError\<close> and builds nothing; when the earlier checks pass
  (a callable, iterables of one common non-zero length) the message is the one of source
  line 415.
\<close>

theorem from_map_produces_tasks_multiple:
  fixes func :: "('a, 'p) py_func" and kw :: "('a, 'm) from_map_kw"
  assumes pt: "kw_produces_tasks kw" and len: "1 < length iterables"
  shows "(\<exists>msg. from_map func iterables kw = Inl (ValueError msg))
       \<and> (\<forall>fname f n. func = Func fname f \<longrightarrow> 0 < n
            \<longrightarrow> (\<forall>it \<in> set iterables. it \<noteq> NotIterable \<and> length (items it) = n)
            \<longrightarrow> from_map func iterables kw
                  = Inl (ValueError ''Multiple iterables not supported when produces_tasks=True''))"
proof (intro conjI allI impI)
  show "\<exists>msg. from_map func iterables kw = Inl (ValueError msg)"
    using pt len by (cases func) (simp_all add: from_map_def Let_def)
next
  fix fname f n
  assume f: "func = Func fname f" and n: "0 < n"
    and all: "\<forall>it \<in> set iterables. it \<noteq> NotIterable \<and> length (items it) = n"
  have ne: "iterables \<noteq> []" using len by auto
  have ni: "NotIterable \<notin> set iterables" using all by blast
  have S: "set (map length (map items iterables)) = {n}"
    using all ne by (cases iterables) auto
  have c0: "card {n} \<noteq> 0" and c1: "\<not> 1 < card {n}" and nz: "{n} \<noteq> {0}"
    using n by simp_all
  have l: "1 < length (map items iterables)" using len by simp
  show "from_map func iterables kw
          = Inl (ValueError ''Multiple iterables not supported when produces_tasks=True'')"
    by (simp only: from_map_def Let_def f py_func.case ni S c0 c1 nz pt l if_False if_True
          simp_thms)
qed

text \<open>Claim C9 at two iterables of length two.\<close>

theorem from_map_produces_tasks_multiple_witness:
  "kw_produces_tasks (ex_kw\<lparr>kw_produces_tasks := True\<rparr>)
   \<and> 1 < length [Sized [Atom 1, Atom 2], Sized [Atom 3, Atom (4::nat)]]
   \<and> from_map ex_func [Sized [Atom 1, Atom 2], Sized [Atom 3, Atom 4]]
        (ex_kw\<lparr>kw_produces_tasks := True\<rparr>)
       = Inl (ValueError ''Multiple iterables not supported when produces_tasks=True'')"
proof -
  have h1: "kw_produces_tasks (ex_kw\<lparr>kw_produces_tasks := True\<rparr>)" by simp
  have h2: "1 < length [Sized [Atom 1, Atom 2], Sized [Atom 3, Atom (4::nat)]]" by simp
  have h3: "\<forall>it \<in> set [Sized [Atom 1, Atom 2], Sized [Atom 3, Atom (4::nat)]].
              it \<noteq> NotIterable \<and> length (items it) = 2" by simp
  from from_map_produces_tasks_multiple[OF h1 h2, of ex_func] h3
  have "from_map ex_func [Sized [Atom 1, Atom 2], Sized [Atom 3, Atom 4]]
        (ex_kw\<lparr>kw_produces_tasks := True\<rparr>)
       = Inl (ValueError ''Multiple iterables not supported when produces_tasks=True'')"
    unfolding ex_func_def by (metis zero_less_numeral)
  with h1 h2 show ?thesis by blast
qed

text \<open>
  Claim C10: \<^verbatim>\<open>from_delayed\<close> of one \<^verbatim>\<open>Delayed\<close> handle gives what it gives for the
  list of that one handle, whatever the other arguments are; without divisions the
  result is a collection of one partition whose divisions are two unknown entries.
\<close>

theorem from_delayed_single:
  "from_delayed tokenize (Single d) mt divs prefix
     = from_delayed tokenize (Several [d]) mt divs prefix
   \<and> from_delayed tokenize (Single d) mt None prefix
     = Inr \<lparr>dask = \<lparr>hlg_name = prefix @ ''-'' @ tokenize [d],
                    hlg_dsk = [((prefix @ ''-'' @ tokenize [d], 0), delayed_key d)],
                    hlg_dependencies = [d]\<rparr>,
            name = prefix @ ''-'' @ tokenize [d], meta = mt, divisions = [None, None]\<rparr>"
  by (simp add: from_delayed_def new_array_object_def Let_def)

section \<open>Properties of \<^verbatim>\<open>to_dask_array\<close>\<close>

text \<open>
  Claim C7 fails as stated: for a collection of dimension two the inner axis gets one
  chunk of size \<^verbatim>\<open>np.nan\<close>, not of size one, and a representative value of record type
  makes the conversion raise \<^verbatim>\<open>AttributeError\<close> instead of returning.
\<close>

theorem to_dask_array_inner_chunks_nan:
  "map_sum id da_chunks (to_dask_array (ex_array (RegularType (NumpyType ''int64'') 4)) 2 ''m'' ''t'')
     = Inr [[NaN, NaN, NaN], [NaN]]
   \<and> [[NaN, NaN, NaN], [NaN]] \<noteq> [[NaN, NaN, NaN], [Size 1]]
   \<and> to_dask_array (ex_array (RecordType [NumpyType ''int64''])) 2 ''m'' ''t'' = Inl AttributeError
   \<and> to_dask_array (ex_array (RecordType [NumpyType ''int64''])) 1 ''m'' ''t'' = Inl AttributeError"
  by (simp add: to_dask_array_def ex_array_def npartitions_def Let_def)

text \<open>
  Claim C7, amended: for every collection with a known representative value,
  \<^verbatim>\<open>to_dask_array\<close> returns a numeric collection when the collection is one-dimensional
  with a numeric type, and when it is not one-dimensional and the content of its type
  reaches a numeric leaf through list, regular and option wrappers; whenever it returns,
  the chunks are one \<^verbatim>\<open>np.nan\<close>-sized chunk per partition along the partition axis and a
  single \<^verbatim>\<open>np.nan\<close>-sized chunk along each of the \<open>ndim - 1\<close> inner axes.
\<close>

theorem to_dask_array_chunks:
  fixes array :: "('g, ak_type) Array"
  assumes mt: "meta array = Some ty"
  shows "(\<forall>p. ndim = 1 \<longrightarrow> ty = NumpyType p \<longrightarrow>
            (\<exists>d. to_dask_array array ndim mp_name tok = Inr d \<and> da_dtype d = p
                \<and> da_chunks d = [replicate (npartitions array) NaN]))
       \<and> (\<forall>c p. ndim \<noteq> 1 \<longrightarrow> type_content ty = Inr c \<longrightarrow> descend c = Inr p \<longrightarrow>
            (\<exists>d. to_dask_array array ndim mp_name tok = Inr d \<and> da_dtype d = p
                \<and> da_chunks d
                    = replicate (npartitions array) NaN # replicate (nat (ndim - 1)) [NaN]))
       \<and> (\<forall>d. to_dask_array array ndim mp_name tok = Inr d \<longrightarrow>
            da_chunks d = replicate (npartitions array) NaN # replicate (nat (ndim - 1)) [NaN])"
proof (intro conjI allI impI)
  fix p assume "ndim = 1" "ty = NumpyType p"
  then show "\<exists>d. to_dask_array array ndim mp_name tok = Inr d \<and> da_dtype d = p
                \<and> da_chunks d = [replicate (npartitions array) NaN]"
    using mt by (simp add: to_dask_array_def)
next
  fix c p assume "ndim \<noteq> 1" "type_content ty = Inr c" "descend c = Inr p"
  then show "\<exists>d. to_dask_array array ndim mp_name tok = Inr d \<and> da_dtype d = p
                \<and> da_chunks d
                    = replicate (npartitions array) NaN # replicate (nat (ndim - 1)) [NaN]"
    using mt by (simp add: to_dask_array_def Let_def)
next
  fix d assume "to_dask_array array ndim mp_name tok = Inr d"
  then show "da_chunks d = replicate (npartitions array) NaN # replicate (nat (ndim - 1)) [NaN]"
    using mt
    by (auto simp add: to_dask_array_def Let_def split: if_splits ak_type.splits sum.splits)
qed

text \<open>The amended claim C7 at a three-dimensional collection of three partitions.\<close>

theorem to_dask_array_chunks_witness:
  "meta (ex_array (RegularType (ListType (NumpyType ''float64'')) 4))
     = Some (RegularType (ListType (NumpyType ''float64'')) 4)
   \<and> (\<exists>d. to_dask_array (ex_array (RegularType (ListType (NumpyType ''float64'')) 4)) 3 ''m'' ''t'' = Inr d
        \<and> da_dtype d = ''float64''
        \<and> da_chunks d = [[NaN, NaN, NaN], [NaN], [NaN]])"
proof -
  have h: "meta (ex_array (RegularType (ListType (NumpyType ''float64'')) 4))
     = Some (RegularType (ListType (NumpyType ''float64'')) 4)"
    by (simp add: ex_array_def)
  have n: "npartitions (ex_array (RegularType (ListType (NumpyType ''float64'')) 4)) = 3"
    by (simp add: npartitions_def ex_array_def)
  have r: "replicate 3 NaN = [NaN, NaN, NaN]" "replicate (nat (3 - 1)) [NaN] = [[NaN], [NaN]]"
    by (simp_all add: numeral_3_eq_3 numeral_2_eq_2)
  from to_dask_array_chunks[OF h, of 3 "''m''" "''t''"]
  have "\<exists>d. to_dask_array (ex_array (RegularType (ListType (NumpyType ''float64'')) 4)) 3 ''m'' ''t'' = Inr d
        \<and> da_dtype d = ''float64''
        \<and> da_chunks d = replicate (npartitions (ex_array (RegularType (ListType (NumpyType ''float64'')) 4))) NaN
                           # replicate (nat (3 - 1)) [NaN]"
    by simp
  then show ?thesis using h unfolding n r by simp
qed

section \<open>Properties of the parquet writer's file names\<close>

lemma str_nat_length_pos: "1 \<le> length (str_nat n)"
  by (subst str_nat.simps) simp

lemma str_nat_upper: "n < 10 ^ length (str_nat n)"
proof (induction n rule: str_nat.induct)
  case (1 n)
  show ?case
  proof (cases "n < 10")
    case True
    then show ?thesis by (subst str_nat.simps) simp
  next
    case False
    then have "n div 10 < 10 ^ length (str_nat (n div 10))" using 1 by simp
    then have "n < 10 * 10 ^ length (str_nat (n div 10))" by linarith
    then show ?thesis using False by (subst str_nat.simps) simp
  qed
qed

lemma str_nat_lower: "0 < n \<Longrightarrow> 10 ^ (length (str_nat n) - 1) \<le> n"
proof (induction n rule: str_nat.induct)
  case (1 n)
  show ?case
  proof (cases "n < 10")
    case True
    then show ?thesis using 1(2) by (subst str_nat.simps) simp
  next
    case False
    then have pos: "0 < n div 10" by simp
    have "10 ^ (length (str_nat (n div 10)) - 1) \<le> n div 10" using 1(1)[OF False pos] .
    then have "10 * 10 ^ (length (str_nat (n div 10)) - 1) \<le> n" by linarith
    moreover have "length (str_nat n) - 1 = Suc (length (str_nat (n div 10)) - 1)"
      using False str_nat_length_pos[of "n div 10"] by (subst str_nat.simps) simp
    ultimately show ?thesis by simp
  qed
qed

lemma str_nat_length_mono:
  assumes "k \<le> m"
  shows "length (str_nat k) \<le> length (str_nat m)"
proof (rule ccontr)
  assume "\<not> ?thesis"
  then have lt: "length (str_nat m) < length (str_nat k)" by simp
  then have "length (str_nat m) \<le> length (str_nat k) - 1" by simp
  then have "(10::nat) ^ length (str_nat m) \<le> 10 ^ (length (str_nat k) - 1)"
    by (intro power_increasing) simp_all
  moreover have "0 < k"
  proof (rule ccontr)
    assume "\<not> 0 < k"
    then have "k = 0" by simp
    then have "length (str_nat k) = 1" by (subst str_nat.simps) simp
    with lt str_nat_length_pos[of m] show False by simp
  qed
  ultimately have "10 ^ length (str_nat m) \<le> k" using str_nat_lower[of k] by linarith
  with str_nat_upper[of m] assms show False by linarith
qed

lemma ceiling_log10_digits:
  assumes "2 \<le> n"
  shows "nat \<lceil>log 10 (real n)\<rceil> = length (str_nat (n - 1))"
proof -
  let ?d = "length (str_nat (n - 1))"
  have d1: "1 \<le> ?d" by (rule str_nat_length_pos)
  have up: "n - 1 < 10 ^ ?d" by (rule str_nat_upper)
  have lo: "10 ^ (?d - 1) \<le> n - 1" using assms by (intro str_nat_lower) simp
  have "n \<le> 10 ^ ?d" using up by linarith
  then have "real n \<le> 10 ^ ?d" by (metis of_nat_le_iff of_nat_numeral of_nat_power)
  then have le: "log 10 (real n) \<le> real ?d"
    using assms by (intro log_of_power_le) simp_all
  have "10 ^ (?d - 1) < n" using lo assms by linarith
  then have "(10::real) ^ (?d - 1) < real n" by (metis of_nat_less_iff of_nat_numeral of_nat_power)
  then have "real (?d - 1) < log 10 (real n)"
    by (intro less_log_of_power) simp_all
  then have gt: "real_of_int (int ?d) - 1 < log 10 (real n)" using d1 by (simp add: of_nat_diff)
  have "\<lceil>log 10 (real n)\<rceil> = int ?d"
    using gt le by (intro ceiling_unique) simp_all
  then show ?thesis by simp
qed

lemma zfill_width:
  assumes "1 \<le> n"
  shows "ToParquetFn_zfill (Some n) = Inr (if n = 1 then 0 else length (str_nat (n - 1)))"
proof (cases "n = 1")
  case True
  then show ?thesis by (simp add: ToParquetFn_zfill_def)
next
  case False
  then have "2 \<le> n" using assms by simp
  then show ?thesis using False by (simp add: ToParquetFn_zfill_def ceiling_log10_digits)
qed

lemma zfill_pad:
  assumes "k < n"
  shows "zfill (if n = 1 then 0 else length (str_nat (n - 1))) (str_nat k)
           = replicate (length (str_nat (n - 1)) - length (str_nat k)) (CHR ''0'') @ str_nat k"
proof (cases "n = 1")
  case True
  then have "k = 0" using assms by simp
  then show ?thesis using True by (simp add: zfill_def)
next
  case False
  then show ?thesis by (simp add: zfill_def)
qed

text \<open>
  Claim C6 fails as stated: with ten partitions the width is
  \<^verbatim>\<open>math.ceil(math.log(10, 10))\<close>, which is one and not the two digits of \<open>10\<close>, so that
  partition three is written to \<^verbatim>\<open>part3.parquet\<close> and not to \<^verbatim>\<open>part03.parquet\<close>.
\<close>

theorem to_parquet_file_names_unpadded:
  "map_sum id (\<lambda>paths. paths ! 3) (to_parquet_paths ''/'' ''root'' 10) = Inr ''root/part3.parquet''
   \<and> ''root/part3.parquet'' \<noteq> ''root/part03.parquet''
   \<and> length (str_nat 10) = 2"
proof -
  have z: "ToParquetFn_zfill (Some 10) = Inr 1" by (simp add: ToParquetFn_zfill_def)
  have u: "[0 ..< 10] ! 3 = 3" by simp
  have s3: "str_nat 3 = ''3''" by (subst str_nat.simps) (simp add: digit_char_def)
  have s10: "str_nat 10 = ''10''"
    by (subst str_nat.simps, subst str_nat.simps) (simp add: digit_char_def)
  show ?thesis
    by (simp add: to_parquet_paths_def z ToParquetFn_filename_def zfill_def s3 s10)
qed

text \<open>
  Claim C6, amended: for every collection of \<open>N\<close> partitions and every \<open>K < N\<close>, partition
  \<open>K\<close> is written to \<^verbatim>\<open><root>/part{K}.parquet\<close> where \<open>K\<close> is zero-padded to exactly the
  number of decimal digits of \<open>N - 1\<close>, the largest partition index, which is at least
  one.
\<close>

theorem to_parquet_file_names:
  assumes "k < n"
  shows "\<exists>zf paths.
           ToParquetFn_zfill (Some n) = Inr zf
         \<and> to_parquet_paths sep path n = Inr paths
         \<and> length paths = n
         \<and> paths ! k = path @ sep @ ToParquetFn_filename zf k
         \<and> ToParquetFn_filename zf k
             = ''part'' @ replicate (length (str_nat (n - 1)) - length (str_nat k)) (CHR ''0'')
                 @ str_nat k @ ''.parquet''
         \<and> length (zfill zf (str_nat k)) = length (str_nat (n - 1))
         \<and> 1 \<le> length (str_nat (n - 1))"
proof -
  let ?zf = "if n = 1 then 0 else length (str_nat (n - 1))"
  have n1: "1 \<le> n" using assms by simp
  have z: "ToParquetFn_zfill (Some n) = Inr ?zf" using n1 by (rule zfill_width)
  have pad: "zfill ?zf (str_nat k)
           = replicate (length (str_nat (n - 1)) - length (str_nat k)) (CHR ''0'') @ str_nat k"
    using assms by (rule zfill_pad)
  have mono: "length (str_nat k) \<le> length (str_nat (n - 1))"
    using assms by (intro str_nat_length_mono) simp
  have len: "length (zfill ?zf (str_nat k)) = length (str_nat (n - 1))"
    unfolding pad using mono by simp
  have fn: "ToParquetFn_filename ?zf k
             = ''part'' @ replicate (length (str_nat (n - 1)) - length (str_nat k)) (CHR ''0'')
                 @ str_nat k @ ''.parquet''"
    unfolding ToParquetFn_filename_def pad by simp
  have ps: "to_parquet_paths sep path n
              = Inr (map (\<lambda>j. path @ sep @ ToParquetFn_filename ?zf j) [0 ..< n])"
    by (simp only: to_parquet_paths_def z sum.case)
  have nth: "map (\<lambda>j. path @ sep @ ToParquetFn_filename ?zf j) [0 ..< n] ! k
               = path @ sep @ ToParquetFn_filename ?zf k"
    using assms by simp
  show ?thesis
    apply (rule exI[of _ ?zf])
    apply (rule exI[of _ "map (\<lambda>j. path @ sep @ ToParquetFn_filename ?zf j) [0 ..< n]"])
    using z ps nth fn len str_nat_length_pos[of "n - 1"] by simp
qed

text \<open>The amended claim C6 at partition seven of twelve.\<close>

theorem to_parquet_file_names_witness:
  "(7::nat) < 12
   \<and> (\<exists>paths. to_parquet_paths ''/'' ''root'' 12 = Inr paths
        \<and> length paths = 12 \<and> paths ! 7 = ''root/part07.parquet'')"
proof -
  have h: "(7::nat) < 12" by simp
  have s7: "str_nat 7 = ''7''" by (subst str_nat.simps) (simp add: digit_char_def)
  have s11: "str_nat 11 = ''11''"
    by (subst str_nat.simps, subst str_nat.simps) (simp add: digit_char_def)
  from to_parquet_file_names[OF h, of "''/''" "''root''"]
  obtain zf paths where
    "to_parquet_paths ''/'' ''root'' 12 = Inr paths" "length paths = 12"
    "paths ! 7 = ''root'' @ ''/'' @ ToParquetFn_filename zf 7"
    "ToParquetFn_filename zf 7
       = ''part'' @ replicate (length (str_nat (12 - 1)) - length (str_nat 7)) (CHR ''0'')
           @ str_nat 7 @ ''.parquet''"
    by blast
  then show ?thesis using h by (simp add: s7 s11)
qed
section \<open>Properties of \<^verbatim>\<open>from_parquet\<close>\<close>

subsection \<open>The number of partitions and the divisions\<close>

lemma ex_metadata:
  "metadata_from_data_files ''d'' [(''d/a'', [5, 6]), (''d/b'', [7, 8])]
     = [\<lparr>rg_file_path = ''a'', rg_num_rows = 5\<rparr>, \<lparr>rg_file_path = ''a'', rg_num_rows = 6\<rparr>,
        \<lparr>rg_file_path = ''b'', rg_num_rows = 7\<rparr>, \<lparr>rg_file_path = ''b'', rg_num_rows = 8\<rparr>]"
  by (simp add: metadata_from_data_files_def file_metadata_def)

lemma upt_small: "[0 ..< 2] = [0, 1]" "[0 ..< 3] = [0, 1, 2]"
  by (simp_all add: numeral_2_eq_2 numeral_3_eq_3)

lemma ex_row_group_plan:
  "from_parquet ex_load id ''t'' ex_results None None
     = from_parquet_row_group_wise ex_load id ''t'' ex_results None [None, None]"
  by (simp add: from_parquet_def ex_results_def resolve_split_row_groups_def)

lemma ex_subrg:
  "subrg_all_none [''d/a'', ''d/b'']
     (Some (metadata_from_data_files ''d'' [(''d/a'', [5, 6]), (''d/b'', [7, 8])]))
     = Inr [Some [0, 1, 2], Some [0, 1, 2]]"
  by (simp add: ex_metadata subrg_all_none_def rgs_paths_init_def upt_small)

lemma ex_row_group_call:
  "from_parquet_row_group_wise ex_load id ''t'' ex_results None [None, None]
     = from_map (Func ''_FromParquetFragmentWiseFn'' (FromParquetFragmentWiseFn ex_load None ()))
         [Sized [Tup [Atom (RgItem 0), Atom (PathItem ''d/a'')],
             Tup [Atom (RgItem 1), Atom (PathItem ''d/a'')],
             Tup [Atom (RgItem 2), Atom (PathItem ''d/a'')],
             Tup [Atom (RgItem 0), Atom (PathItem ''d/b'')],
             Tup [Atom (RgItem 1), Atom (PathItem ''d/b'')],
             Tup [Atom (RgItem 2), Atom (PathItem ''d/b'')]]]
         (from_parquet_kw ''t'' (Some [Some 0, Some 5, Some 11, Some 18, Some 26]) ())"
  by (simp add: from_parquet_row_group_wise_def ex_results_def ex_subrg)
     (simp add: ex_metadata accumulate_def)


text \<open>
  Claim C2 does not hold of the code.  For the dataset of two files with two row groups
  each, read through its aggregated metadata, the graph layer of the row-group plan has
  six partition sources (row groups \<open>0\<close>, \<open>1\<close>, \<open>2\<close> of either file, from
  \<^verbatim>\<open>list(range(i))\<close> with the last loop index) and the collection has five divisions,
  the divisions of four partitions.  And \<^verbatim>\<open>from_map\<close> stores the divisions it is
  given without comparing their number with the number of inputs, which
  \<^verbatim>\<open>from_delayed\<close> does compare.
\<close>

theorem from_parquet_divisions_mismatch:
  "map_sum id (\<lambda>c. (layer_inputs (dask c), divisions c, npartitions c))
       (from_parquet ex_load id ''t'' ex_results None None)
     = Inr ([Tup [Atom (RgItem 0), Atom (PathItem ''d/a'')],
             Tup [Atom (RgItem 1), Atom (PathItem ''d/a'')],
             Tup [Atom (RgItem 2), Atom (PathItem ''d/a'')],
             Tup [Atom (RgItem 0), Atom (PathItem ''d/b'')],
             Tup [Atom (RgItem 1), Atom (PathItem ''d/b'')],
             Tup [Atom (RgItem 2), Atom (PathItem ''d/b'')]],
            [Some 0, Some 5, Some 11, Some 18, Some 26],
            4)
   \<and> map_sum id (\<lambda>c. (length (layer_inputs (dask c)), length (divisions c)))
       (from_map ex_func [Sized [Atom 1, Atom 2, Atom 3]] (ex_kw\<lparr>kw_divisions := Some [Some 0, Some 1]\<rparr>))
     = Inr (3, 2)"
proof -
  note a = ex_row_group_call
  show ?thesis
    unfolding ex_row_group_plan a
    by (simp add: from_map_def from_map_build_def new_array_object_def from_parquet_kw_def
          ex_func_def ex_kw_def npartitions_def Let_def)
qed

subsection \<open>The choice of the granularity\<close>

text \<open>
  Claim C3 does not hold of the code.  The docstring of \<^verbatim>\<open>from_parquet\<close> gives the same
  rule as the claim: with \<^verbatim>\<open>split_row_groups=None\<close>, a \<^verbatim>\<open>_metadata\<close> file together with
  \<^verbatim>\<open>ignore_metadata=False\<close> means row groups, anything else means files.  The code looks
  at neither: it plans by row group whenever the metadata pass reports more than one row
  count.  For a single file of two row groups, without a \<^verbatim>\<open>_metadata\<close> file and with
  \<^verbatim>\<open>ignore_metadata=True\<close>, the plan is by row group: a (row group, file) pair as
  partition source and known divisions.
\<close>

theorem from_parquet_row_groups_without_metadata_file:
  "map_sum id (\<lambda>c. (layer_inputs (dask c), divisions c))
       (from_parquet_path ex_load id ''t'' ex_single_file_pass True False None None)
     = Inr ([Tup [Atom (RgItem 0), Atom (PathItem ''d/a'')]], [Some 0, Some 5, Some 11])"
proof -
  have plan: "from_parquet_path ex_load id ''t'' ex_single_file_pass True False None None
     = from_parquet_row_group_wise ex_load id ''t'' (ex_single_file_pass None True False) None [None]"
    by (simp add: from_parquet_path_def from_parquet_def ex_single_file_pass_def
          resolve_split_row_groups_def)
  have sub: "subrg_all_none [''d/a'']
               (Some [\<lparr>rg_file_path = [], rg_num_rows = 5\<rparr>, \<lparr>rg_file_path = [], rg_num_rows = 6\<rparr>])
               = Inr [Some [0]]"
    by (simp add: subrg_all_none_def rgs_paths_init_def)
  have call: "from_parquet_row_group_wise ex_load id ''t'' (ex_single_file_pass None True False) None [None]
     = from_map (Func ''_FromParquetFragmentWiseFn'' (FromParquetFragmentWiseFn ex_load None ()))
         [Sized [Tup [Atom (RgItem 0), Atom (PathItem ''d/a'')]]]
         (from_parquet_kw ''t'' (Some [Some 0, Some 5, Some 11]) ())"
    by (simp add: from_parquet_row_group_wise_def ex_single_file_pass_def sub)
       (simp add: accumulate_def)
  show ?thesis
    unfolding plan call
    by (simp add: from_map_def from_map_build_def new_array_object_def from_parquet_kw_def
          Let_def)
qed

subsection \<open>The divisions of the row-group plan\<close>











subsection \<open>Row groups without a file path\<close>

lemma ex_scanned_counts:
  "count_row_groups (rgs_paths_init [''d/a'', ''d/b'']) ex_row_groups_scanned
     = Inr [(''d/a'', 1), (''d/b'', 2)]"
  by (simp add: rgs_paths_init_def ex_row_groups_scanned_def)

text \<open>
  Claim C4 does not hold of the code.  In a dataset of the file \<^verbatim>\<open>d/a\<close> with one row group
  and the file \<^verbatim>\<open>d/b\<close> with two, where the row group of \<^verbatim>\<open>d/a\<close> records no file path,
  the sequential assignment is row group \<open>0\<close> of \<^verbatim>\<open>d/a\<close> and row groups \<open>0\<close> and \<open>1\<close> of
  \<^verbatim>\<open>d/b\<close>.  The loop counts just that, one row group for \<^verbatim>\<open>d/a\<close> and two for \<^verbatim>\<open>d/b\<close>,
  and the counts are not read: every file gets \<^verbatim>\<open>list(range(i))\<close> for the last loop
  index \<open>i = 2\<close>, the slip of source line 134 that also breaks claim C2.
\<close>

theorem from_parquet_no_file_path_assignment:
  "count_row_groups (rgs_paths_init [''d/a'', ''d/b'']) ex_row_groups_scanned
     = Inr [(''d/a'', 1), (''d/b'', 2)]
   \<and> map_sum id (\<lambda>c. layer_inputs (dask c))
        (from_parquet ex_load id ''t'' ex_results_scanned None None)
      = Inr [Tup [Atom (RgItem 0), Atom (PathItem ''d/a'')],
             Tup [Atom (RgItem 1), Atom (PathItem ''d/a'')],
             Tup [Atom (RgItem 0), Atom (PathItem ''d/b'')],
             Tup [Atom (RgItem 1), Atom (PathItem ''d/b'')]]
   \<and> [Tup [Atom (RgItem 0), Atom (PathItem ''d/a'')],
       Tup [Atom (RgItem 1), Atom (PathItem ''d/a'')],
       Tup [Atom (RgItem 0), Atom (PathItem ''d/b'')],
       Tup [Atom (RgItem 1), Atom (PathItem ''d/b'')]]
      \<noteq> [Tup [Atom (RgItem 0), Atom (PathItem ''d/a'')],
         Tup [Atom (RgItem 0), Atom (PathItem ''d/b'')],
         Tup [Atom (RgItem 1), Atom (PathItem ''d/b'')]]"
proof -
  have plan: "from_parquet ex_load id ''t'' ex_results_scanned None None
     = from_parquet_row_group_wise ex_load id ''t'' ex_results_scanned None [None, None]"
    by (simp add: from_parquet_def ex_results_scanned_def resolve_split_row_groups_def)
  have sub: "subrg_all_none [''d/a'', ''d/b''] (Some ex_row_groups_scanned)
               = Inr [Some [0, 1], Some [0, 1]]"
    by (simp add: subrg_all_none_def ex_scanned_counts)
       (simp add: ex_row_groups_scanned_def upt_small)
  have call: "from_parquet_row_group_wise ex_load id ''t'' ex_results_scanned None [None, None]
     = from_map (Func ''_FromParquetFragmentWiseFn'' (FromParquetFragmentWiseFn ex_load None ()))
         [Sized [Tup [Atom (RgItem 0), Atom (PathItem ''d/a'')],
             Tup [Atom (RgItem 1), Atom (PathItem ''d/a'')],
             Tup [Atom (RgItem 0), Atom (PathItem ''d/b'')],
             Tup [Atom (RgItem 1), Atom (PathItem ''d/b'')]]]
         (from_parquet_kw ''t'' (Some [Some 0, Some 5, Some 11, Some 18]) ())"
    by (simp add: from_parquet_row_group_wise_def ex_results_scanned_def sub)
       (simp add: ex_row_groups_scanned_def accumulate_def)
  show ?thesis
    unfolding plan call
    by (simp add: ex_scanned_counts from_map_def from_map_build_def new_array_object_def
          from_parquet_kw_def Let_def)
qed

end
